theory Spec2Isabelle
  imports Complex_Main
begin

section \<open>Strings\<close>

text \<open>
  A string of the program is a sequence of UTF-16 code units; \<open>length\<close> is the
  program's \<open>.length\<close>. A code unit is modelled as a natural number. ASCII literals of
  the source are written \<open>js ''...''\<close>.
\<close>

type_synonym jstring = "nat list"

definition js :: "string \<Rightarrow> jstring" where
  "js s = map of_char s"

section \<open>The reveal scheduler of the chat modal\<close>

text \<open>
  The constants of \<open>main.ts\<close>, lines 101 to 104, and the fields of \<open>ChatModal\<close> that the
  typing animation uses. An HTML element is named by a number. The timer field holds
  whether the interval is set. \<open>shown\<close> logs what the animation writes to the page:
  the element and the text set by \<open>setText\<close>, or the markdown rendered at finalize.
\<close>

definition STREAM_RENDER_INTERVAL_MS :: nat where
  "STREAM_RENDER_INTERVAL_MS = 120"

definition STREAM_TYPING_TICK_MS :: nat where
  "STREAM_TYPING_TICK_MS = max 24 (STREAM_RENDER_INTERVAL_MS div 4)"

definition STREAM_TYPING_BASE_STEP :: nat where
  "STREAM_TYPING_BASE_STEP = 2"

definition STREAM_TYPING_CATCHUP_WINDOW :: nat where
  "STREAM_TYPING_CATCHUP_WINDOW = 20"

datatype display = SetText jstring | RenderMarkdown jstring

record chat_modal =
  streamingRenderTarget :: "nat option"
  streamingRenderText :: jstring
  streamingTypingTimer :: bool
  streamingTypingProgress :: nat
  streamingFinalizeTarget :: "(nat \<times> jstring) option"
  shown :: "(nat \<times> display) list"

definition new_chat_modal :: chat_modal where
  "new_chat_modal =
     \<lparr>streamingRenderTarget = None, streamingRenderText = [],
      streamingTypingTimer = False, streamingTypingProgress = 0,
      streamingFinalizeTarget = None, shown = []\<rparr>"

definition stopStreamingTyping :: "chat_modal \<Rightarrow> chat_modal" where
  "stopStreamingTyping s = s\<lparr>streamingTypingTimer := False, streamingTypingProgress := 0\<rparr>"

definition completeFinalize :: "nat \<Rightarrow> jstring \<Rightarrow> chat_modal \<Rightarrow> chat_modal" where
  "completeFinalize body text s =
     (let s1 = stopStreamingTyping s
      in s1\<lparr>shown := shown s1 @ [(body, RenderMarkdown text)]\<rparr>)"

text \<open>\<open>Math.ceil(remaining / STREAM_TYPING_CATCHUP_WINDOW)\<close> on a positive count.\<close>

definition catchup_of :: "nat \<Rightarrow> nat" where
  "catchup_of remaining = nat \<lceil>real remaining / real STREAM_TYPING_CATCHUP_WINDOW\<rceil>"

definition tickStreamingTyping :: "chat_modal \<Rightarrow> chat_modal" where
  "tickStreamingTyping s =
     (case streamingRenderTarget s of
        None \<Rightarrow> stopStreamingTyping s
      | Some target \<Rightarrow>
          let fullText = streamingRenderText s in
          if fullText = [] then stopStreamingTyping s
          else if length fullText \<le> streamingTypingProgress s then
            (case streamingFinalizeTarget s of
               Some (body, text) \<Rightarrow> completeFinalize body text (s\<lparr>streamingFinalizeTarget := None\<rparr>)
             | None \<Rightarrow> stopStreamingTyping s)
          else
            let remaining = length fullText - streamingTypingProgress s;
                catchup = catchup_of remaining;
                step = max STREAM_TYPING_BASE_STEP catchup;
                progress = min (length fullText) (streamingTypingProgress s + step)
            in s\<lparr>streamingTypingProgress := progress,
                 shown := shown s @ [(target, SetText (take progress fullText))]\<rparr>)"

definition updateTypingText :: "nat \<Rightarrow> jstring \<Rightarrow> chat_modal \<Rightarrow> chat_modal" where
  "updateTypingText body text s =
     (let s1 = (if streamingRenderTarget s \<noteq> Some body
                then s\<lparr>streamingRenderTarget := Some body, streamingTypingProgress := 0\<rparr>
                else s);
          s2 = s1\<lparr>streamingRenderText := text\<rparr>
      in if \<not> streamingTypingTimer s2 then s2\<lparr>streamingTypingTimer := True\<rparr> else s2)"

definition queueFinalize :: "nat \<Rightarrow> jstring \<Rightarrow> chat_modal \<Rightarrow> chat_modal" where
  "queueFinalize body text s =
     (let s1 = s\<lparr>streamingFinalizeTarget := Some (body, text)\<rparr>
      in if \<not> streamingTypingTimer s1 then completeFinalize body text s1 else s1)"

definition resetStreamingState :: "chat_modal \<Rightarrow> chat_modal" where
  "resetStreamingState s =
     (stopStreamingTyping s)\<lparr>streamingRenderText := [], streamingRenderTarget := None,
        streamingTypingProgress := 0, streamingFinalizeTarget := None\<rparr>"

text \<open>
  The interval set by \<open>updateTypingText\<close> calls \<open>tickStreamingTyping\<close> every
  \<open>STREAM_TYPING_TICK_MS\<close> milliseconds until \<open>stopStreamingTyping\<close> clears it.
\<close>

definition interval_fires :: "chat_modal \<Rightarrow> chat_modal" where
  "interval_fires s = (if streamingTypingTimer s then tickStreamingTyping s else s)"

fun run_ticks :: "nat \<Rightarrow> chat_modal \<Rightarrow> chat_modal" where
  "run_ticks 0 s = s"
| "run_ticks (Suc k) s = run_ticks k (interval_fires s)"

text \<open>
  Observer of the reveal: the revealed count equals the length of the target text now or
  after at most \<open>k\<close> further firings of the interval.
\<close>

fun reached_within :: "nat \<Rightarrow> chat_modal \<Rightarrow> bool" where
  "reached_within 0 s = (streamingTypingProgress s = length (streamingRenderText s))"
| "reached_within (Suc k) s =
     (streamingTypingProgress s = length (streamingRenderText s)
      \<or> reached_within k (interval_fires s))"

section \<open>String operations of the platform\<close>

text \<open>
  The white space and line terminator code units of ECMAScript: what
  \<open>String.prototype.trim\<close> strips and what \<open>\s\<close> matches in a regular expression.
\<close>

definition is_ws :: "nat \<Rightarrow> bool" where
  "is_ws c = (c = 9 \<or> c = 10 \<or> c = 11 \<or> c = 12 \<or> c = 13 \<or> c = 32 \<or> c = 160
     \<or> c = 5760 \<or> (8192 \<le> c \<and> c \<le> 8202) \<or> c = 8232 \<or> c = 8233 \<or> c = 8239
     \<or> c = 8287 \<or> c = 12288 \<or> c = 65279)"

definition trim :: "jstring \<Rightarrow> jstring" where
  "trim s = rev (dropWhile is_ws (rev (dropWhile is_ws s)))"

text \<open>\<open>s.startsWith(p)\<close>.\<close>

definition startsWith :: "jstring \<Rightarrow> jstring \<Rightarrow> bool" where
  "startsWith s p = (take (length p) s = p)"

text \<open>\<open>s.endsWith(p)\<close>.\<close>

definition endsWith :: "jstring \<Rightarrow> jstring \<Rightarrow> bool" where
  "endsWith s p = (length p \<le> length s \<and> drop (length s - length p) s = p)"

text \<open>\<open>s.includes(p)\<close>.\<close>

fun includes_str :: "jstring \<Rightarrow> jstring \<Rightarrow> bool" where
  "includes_str [] p = (p = [])"
| "includes_str (c # cs) p = (startsWith (c # cs) p \<or> includes_str cs p)"

text \<open>
  \<open>s.toLowerCase()\<close> on the letters A to Z. The platform's function also maps letters
  outside ASCII, which this model leaves unchanged; none of them maps to a letter of the
  word \<open>abort\<close>, the only thing the program looks for in a lower-cased string.
\<close>

definition toLowerCase :: "jstring \<Rightarrow> jstring" where
  "toLowerCase s = map (\<lambda>c. if 65 \<le> c \<and> c \<le> 90 then c + 32 else c) s"

text \<open>\<open>String(n)\<close> for a natural number: its decimal digits.\<close>

fun decimal :: "nat \<Rightarrow> jstring" where
  "decimal n = (if n < 10 then [48 + n] else decimal (n div 10) @ [48 + n mod 10])"

text \<open>
  \<open>text.split(/\r?\n/)\<close>: the string is cut at every line feed, and a carriage return
  immediately before a line feed belongs to the separator.
\<close>

fun split_lines :: "jstring \<Rightarrow> jstring list" where
  "split_lines [] = [[]]"
| "split_lines (c # cs) =
     (if c = 10 then [] # split_lines cs
      else if c = 13 \<and> cs \<noteq> [] \<and> hd cs = 10 then [] # split_lines (tl cs)
      else (case split_lines cs of
              [] \<Rightarrow> [[c]]
            | l # ls \<Rightarrow> (c # l) # ls))"

text \<open>\<open>lines.join("\n")\<close>.\<close>

fun join_nl :: "jstring list \<Rightarrow> jstring" where
  "join_nl [] = []"
| "join_nl [l] = l"
| "join_nl (l # ls) = l @ 10 # join_nl ls"

section \<open>JSON values\<close>

text \<open>
  What \<open>JSON.parse\<close> returns. An object is its list of own properties, the first entry
  for a name being the property's value. \<open>JSON.parse\<close> itself belongs to the platform:
  the functions that call it take it as the parameter \<open>parse\<close>, where \<open>None\<close> is the
  \<open>SyntaxError\<close> it throws. A value that may be \<open>undefined\<close> is a \<open>json option\<close>.
\<close>

datatype json =
  JNull | JBool bool | JNum real | JStr jstring | JArr "json list" | JObj "(jstring \<times> json) list"

text \<open>Reading a named property (none of the names the program reads is an array index or \<open>length\<close>).\<close>

fun get_prop :: "json \<Rightarrow> jstring \<Rightarrow> json option" where
  "get_prop (JObj kvs) k = map_of kvs k"
| "get_prop _ k = None"

text \<open>\<open>!v\<close> is false: the value is truthy.\<close>

fun truthy :: "json \<Rightarrow> bool" where
  "truthy JNull = False"
| "truthy (JBool b) = b"
| "truthy (JNum n) = (n \<noteq> 0)"
| "truthy (JStr s) = (s \<noteq> [])"
| "truthy (JArr _) = True"
| "truthy (JObj _) = True"

text \<open>\<open>typeof v === "object"\<close>.\<close>

fun typeof_object :: "json \<Rightarrow> bool" where
  "typeof_object JNull = True"
| "typeof_object (JArr _) = True"
| "typeof_object (JObj _) = True"
| "typeof_object _ = False"

text \<open>\<open>a ?? b\<close> on values that may be \<open>undefined\<close> or \<open>null\<close>.\<close>

fun nullish :: "json option \<Rightarrow> bool" where
  "nullish None = True"
| "nullish (Some JNull) = True"
| "nullish _ = False"

definition coalesce :: "json option \<Rightarrow> json option \<Rightarrow> json option" where
  "coalesce a b = (if nullish a then b else a)"

section \<open>Artifact reference extraction\<close>

text \<open>The section marker of \<open>extractArtifactPaths\<close>: the Cyrillic word and a colon.\<close>

definition ARTIFACT_MARKER :: jstring where
  "ARTIFACT_MARKER = [1040, 1088, 1090, 1077, 1092, 1072, 1082, 1090, 1099, 58]"

text \<open>
  \<open>trimmed.match(/^-\s*(\/artifacts\/\S+)/u)\<close>: the first capture group, or \<open>None\<close>
  when the line does not match.
\<close>

definition match_artifact :: "jstring \<Rightarrow> jstring option" where
  "match_artifact trimmed =
     (case trimmed of
        [] \<Rightarrow> None
      | c # rest \<Rightarrow>
          if c \<noteq> 45 then None
          else
            let r = dropWhile is_ws rest;
                token = takeWhile (\<lambda>c. \<not> is_ws c) (drop (length (js ''/artifacts/'')) r)
            in if startsWith r (js ''/artifacts/'') \<and> token \<noteq> []
               then Some (js ''/artifacts/'' @ token) else None)"

text \<open>The loop of \<open>extractArtifactPaths\<close> over the remaining lines, with the flag \<open>inBlock\<close>.\<close>

fun artifact_loop :: "bool \<Rightarrow> jstring list \<Rightarrow> jstring list" where
  "artifact_loop inBlock [] = []"
| "artifact_loop inBlock (line # lines) =
     (let trimmed = trim line in
      if startsWith trimmed ARTIFACT_MARKER then artifact_loop True lines
      else if \<not> inBlock then artifact_loop inBlock lines
      else (case match_artifact trimmed of
              Some path \<Rightarrow> path # artifact_loop inBlock lines
            | None \<Rightarrow> if trimmed \<noteq> [] then [] else artifact_loop inBlock lines))"

definition extractArtifactPaths :: "jstring \<Rightarrow> jstring list" where
  "extractArtifactPaths text = artifact_loop False (split_lines text)"

section \<open>The streaming transport\<close>

text \<open>
  \<open>callChatApiWebSocket\<close> of \<open>main.ts\<close> (lines 552 to 770). The state of one call: the
  closure variables \<open>settled\<close> and \<open>fullText\<close>, the promise (\<open>None\<close> while it is
  pending), whether the open timeout is still set, and three logs of what the call does to
  its surroundings: the texts passed to \<open>onChunk\<close>, the calls of \<open>socket.close\<close> (code
  and reason, when given) and the number of payloads sent.
\<close>

record ChatApiResponse =
  message :: jstring
  artifactPaths :: "jstring list"

datatype settlement = Resolved ChatApiResponse | Rejected jstring

record socket_call =
  settled :: bool
  fullText :: jstring
  promise :: "settlement option"
  openTimeout_set :: bool
  onChunk_calls :: "jstring list"
  close_calls :: "(nat option \<times> jstring option) list"
  payloads_sent :: nat

definition new_socket_call :: socket_call where
  "new_socket_call =
     \<lparr>settled = False, fullText = [], promise = None, openTimeout_set = True,
      onChunk_calls = [], close_calls = [], payloads_sent = 0\<rparr>"

text \<open>
  \<open>cleanup\<close> removes the four handlers and the abort listener and clears the open timeout.
  The handlers are removed exactly when \<open>settled\<close> becomes true, so an event is ignored
  when \<open>settled\<close> holds.
\<close>

definition resolveOnce :: "ChatApiResponse \<Rightarrow> socket_call \<Rightarrow> socket_call" where
  "resolveOnce result s =
     (if settled s then s
      else s\<lparr>settled := True, openTimeout_set := False, promise := Some (Resolved result)\<rparr>)"

definition rejectOnce :: "jstring \<Rightarrow> socket_call \<Rightarrow> socket_call" where
  "rejectOnce error s =
     (if settled s then s
      else s\<lparr>settled := True, openTimeout_set := False, promise := Some (Rejected error)\<rparr>)"

definition finalizeWithText :: "jstring \<Rightarrow> socket_call \<Rightarrow> socket_call" where
  "finalizeWithText text s =
     resolveOnce \<lparr>message = text, artifactPaths = extractArtifactPaths text\<rparr> s"

definition socket_close :: "nat option \<Rightarrow> jstring option \<Rightarrow> socket_call \<Rightarrow> socket_call" where
  "socket_close code reason s = s\<lparr>close_calls := close_calls s @ [(code, reason)]\<rparr>"

definition onChunk :: "jstring \<Rightarrow> socket_call \<Rightarrow> socket_call" where
  "onChunk chunk s = s\<lparr>onChunk_calls := onChunk_calls s @ [chunk]\<rparr>"

definition onAbort :: "socket_call \<Rightarrow> socket_call" where
  "onAbort s =
     rejectOnce (js ''Request aborted'')
       (socket_close (Some 1000) (Some (js ''aborted'')) s)"

text \<open>\<open>typeof v === "string" ? v : ...\<close> on a property that may be absent.\<close>

fun string_of :: "json option \<Rightarrow> jstring option" where
  "string_of (Some (JStr s)) = Some s"
| "string_of _ = None"

text \<open>
  \<open>handleFrame\<close> (lines 622 to 696). \<open>Inl\<close> is the message of the \<open>Error\<close> it throws;
  it throws before it changes anything.
\<close>

definition handleFrame :: "json \<Rightarrow> socket_call \<Rightarrow> jstring + socket_call" where
  "handleFrame frame s =
     (case frame of
        JStr str \<Rightarrow>
          (let trimmed = trim str in
           if trimmed = js ''[DONE]'' \<or> trimmed = js ''__DONE__''
           then Inr (socket_close (Some 1000) (Some (js ''done'')) (finalizeWithText (fullText s) s))
           else Inr (onChunk str (s\<lparr>fullText := fullText s @ str\<rparr>)))
      | _ \<Rightarrow>
          if \<not> truthy frame \<or> \<not> typeof_object frame then Inr s
          else if get_prop frame (js ''type'') = Some (JStr (js ''error'')) then
            Inl (case string_of (get_prop frame (js ''message'')) of
                   Some m \<Rightarrow> m
                 | None \<Rightarrow>
                     (case string_of (get_prop frame (js ''error'')) of
                        Some e \<Rightarrow> e
                      | None \<Rightarrow> js ''Chat websocket error.''))
          else if get_prop frame (js ''type'') = Some (JStr (js ''chunk'')) then
            (let chunk = (case string_of (get_prop frame (js ''text'')) of
                            Some t \<Rightarrow> t | None \<Rightarrow> [])
             in if chunk \<noteq> [] then Inr (onChunk chunk (s\<lparr>fullText := fullText s @ chunk\<rparr>))
                else Inr s)
          else if get_prop frame (js ''type'') = Some (JStr (js ''done''))
                  \<or> get_prop frame (js ''done'') = Some (JBool True) then
            Inr (socket_close (Some 1000) (Some (js ''done'')) (finalizeWithText (fullText s) s))
          else
            (let textCandidate =
                   (case string_of (get_prop frame (js ''message'')) of
                      Some m \<Rightarrow> Some m
                    | None \<Rightarrow>
                        (case string_of (get_prop frame (js ''response'')) of
                           Some r \<Rightarrow> Some r
                         | None \<Rightarrow>
                             (case string_of (get_prop frame (js ''content'')) of
                                Some c \<Rightarrow> Some c
                              | None \<Rightarrow> string_of (get_prop frame (js ''text'')))))
             in case textCandidate of
                  Some t \<Rightarrow> Inr (onChunk t (s\<lparr>fullText := fullText s @ t\<rparr>))
                | None \<Rightarrow> Inr s))"

text \<open>
  The data of a message event: a string, an \<open>ArrayBuffer\<close> (given by the text that
  \<open>TextDecoder\<close> decodes from it) or anything else (given by \<open>String(event.data ?? "")\<close>).
\<close>

datatype ws_data = StringData jstring | ArrayBufferData jstring | OtherData jstring

text \<open>
  \<open>try { handleFrame(JSON.parse(raw)); } catch { handleFrame(raw); }\<close>: the \<open>try\<close> block
  holds the call of \<open>handleFrame\<close> as well as the parse.
\<close>

definition parse_then_handle ::
  "(jstring \<Rightarrow> json option) \<Rightarrow> jstring \<Rightarrow> socket_call \<Rightarrow> jstring + socket_call" where
  "parse_then_handle parse raw s =
     (case parse raw of
        None \<Rightarrow> handleFrame (JStr raw) s
      | Some v \<Rightarrow>
          (case handleFrame v s of
             Inl _ \<Rightarrow> handleFrame (JStr raw) s
           | Inr s' \<Rightarrow> Inr s'))"

definition onmessage :: "(jstring \<Rightarrow> json option) \<Rightarrow> ws_data \<Rightarrow> socket_call \<Rightarrow> socket_call" where
  "onmessage parse d s =
     (if settled s then s
      else
        (case (case d of
                 StringData raw \<Rightarrow> parse_then_handle parse raw s
               | ArrayBufferData raw \<Rightarrow> parse_then_handle parse raw s
               | OtherData str \<Rightarrow> handleFrame (JStr str) s) of
           Inl error \<Rightarrow> rejectOnce error s
         | Inr s' \<Rightarrow> s'))"

definition onopen :: "socket_call \<Rightarrow> socket_call" where
  "onopen s =
     (if settled s then s
      else s\<lparr>openTimeout_set := False, payloads_sent := payloads_sent s + 1\<rparr>)"

definition onerror :: "socket_call \<Rightarrow> socket_call" where
  "onerror s = rejectOnce (js ''WebSocket connection failed.'') s"

definition onclose :: "nat \<Rightarrow> socket_call \<Rightarrow> socket_call" where
  "onclose code s =
     (if settled s then s
      else if code = 1000 then finalizeWithText (fullText s) s
      else if length (fullText s) > 0 then finalizeWithText (fullText s) s
      else rejectOnce (js ''WebSocket closed with code '' @ decimal code @ js ''.'') s)"

text \<open>The callback of the open timeout, which runs only while the timeout is set.\<close>

definition openTimeout_fires :: "socket_call \<Rightarrow> socket_call" where
  "openTimeout_fires s =
     (if openTimeout_set s
      then rejectOnce (js ''WebSocket connection timed out.'') (socket_close None None s)
      else s)"

text \<open>The abort listener, which \<open>cleanup\<close> removes.\<close>

definition abort_fires :: "socket_call \<Rightarrow> socket_call" where
  "abort_fires s = (if settled s then s else onAbort s)"

datatype ws_event =
  Open | Message ws_data | SocketError | Close nat | Abort | OpenTimeout

fun ws_step :: "(jstring \<Rightarrow> json option) \<Rightarrow> socket_call \<Rightarrow> ws_event \<Rightarrow> socket_call" where
  "ws_step parse s Open = onopen s"
| "ws_step parse s (Message d) = onmessage parse d s"
| "ws_step parse s SocketError = onerror s"
| "ws_step parse s (Close code) = onclose code s"
| "ws_step parse s Abort = abort_fires s"
| "ws_step parse s OpenTimeout = openTimeout_fires s"

text \<open>
  What the call needs of the settings and of the platform: the configured host and chat
  path, whether \<open>WebSocket\<close> is a function, and three operations of the platform's \<open>URL\<close>
  and \<open>WebSocket\<close>:
  \<^item> \<open>new_URL suffix base\<close> is \<open>new URL(suffix, base).toString()\<close>, with \<open>Inl\<close> the message
    of the \<open>TypeError\<close> it throws when the two do not make a URL;
  \<^item> \<open>websocket_url httpUrl\<close> is what lines 827 to 832 make of the URL of the chat
    endpoint: the protocol set to \<open>wss:\<close> or \<open>ws:\<close> and the query parameter
    \<open>websocket=True\<close> added when it is absent;
  \<^item> \<open>new_WebSocket url\<close> is \<open>None\<close> when \<open>new WebSocket(url)\<close> makes a socket, and the
    message of what the constructor throws otherwise.
\<close>

record environment =
  apiHost :: jstring
  apiChatPath :: jstring
  hasWebSocket :: bool
  new_URL :: "jstring \<Rightarrow> jstring \<Rightarrow> jstring + jstring"
  websocket_url :: "jstring \<Rightarrow> jstring"
  new_WebSocket :: "jstring \<Rightarrow> jstring option"

text \<open>\<open>buildApiUrl\<close> (lines 818 to 823) and \<open>buildChatWebSocketUrl\<close> (lines 825 to 833).\<close>

definition buildApiUrl :: "environment \<Rightarrow> jstring \<Rightarrow> jstring + jstring" where
  "buildApiUrl env p =
     (let host = trim (apiHost env);
          base = (if endsWith host (js ''/'') then host else host @ js ''/'');
          suffix = dropWhile (\<lambda>c. c = 47) (trim p)
      in new_URL env suffix base)"

definition buildChatWebSocketUrl :: "environment \<Rightarrow> jstring + jstring" where
  "buildChatWebSocketUrl env =
     (case buildApiUrl env (apiChatPath env) of
        Inl error \<Rightarrow> Inl error
      | Inr httpUrl \<Rightarrow> Inr (websocket_url env httpUrl))"

text \<open>
  A call that throws before it has a socket: the promise is rejected, no handler, timer or
  abort listener exists, and no event or signal is looked at.
\<close>

definition rejected_before_socket :: "jstring \<Rightarrow> socket_call" where
  "rejected_before_socket error =
     new_socket_call\<lparr>settled := True, openTimeout_set := False, promise := Some (Rejected error)\<rparr>"

text \<open>
  \<open>callChatApiWebSocket\<close> (lines 552 to 770): the two checks, the URL, the constructor of
  the socket, the abort signal that is already set when the call starts (\<open>aborted\<close>), then
  the events in the order the socket, the timer and the signal deliver them.
\<close>

definition callChatApiWebSocket ::
  "(jstring \<Rightarrow> json option) \<Rightarrow> environment \<Rightarrow> bool \<Rightarrow> ws_event list \<Rightarrow> socket_call" where
  "callChatApiWebSocket parse env aborted events =
     (if apiHost env = [] then
        rejected_before_socket (js ''API host is not configured. Set it in settings.'')
      else if \<not> hasWebSocket env then
        rejected_before_socket (js ''WebSocket is not available in this environment.'')
      else
        (case buildChatWebSocketUrl env of
           Inl error \<Rightarrow> rejected_before_socket error
         | Inr url \<Rightarrow>
             (case new_WebSocket env url of
                Some error \<Rightarrow> rejected_before_socket error
              | None \<Rightarrow>
                  foldl (ws_step parse)
                    (if aborted then onAbort new_socket_call else new_socket_call) events)))"

text \<open>The call makes its socket: none of the four ways to throw before is taken.\<close>

definition makes_socket :: "environment \<Rightarrow> bool" where
  "makes_socket env =
     (apiHost env \<noteq> [] \<and> hasWebSocket env
      \<and> (case buildChatWebSocketUrl env of
            Inl error \<Rightarrow> False
          | Inr url \<Rightarrow> new_WebSocket env url = None))"

text \<open>
  The environment of the examples: the host \<open>http://host\<close> with the default chat path on
  a platform that has \<open>WebSocket\<close>. There \<open>new URL("chat", "http://host/")\<close> is
  \<open>http://host/chat\<close> and the URL of the socket is \<open>ws://host/chat?websocket=True\<close>.
\<close>

definition example_env :: environment where
  "example_env =
     \<lparr>apiHost = js ''http://host'', apiChatPath = js ''/chat'', hasWebSocket = True,
      new_URL = (\<lambda>suffix base. Inr (base @ suffix)),
      websocket_url = (\<lambda>httpUrl. js ''ws'' @ drop 4 httpUrl @ js ''?websocket=True''),
      new_WebSocket = (\<lambda>url. None)\<rparr>"

definition isAbortError :: "jstring \<Rightarrow> bool" where
  "isAbortError error_message = includes_str (toLowerCase error_message) (js ''abort'')"

text \<open>
  \<open>callChatApi\<close> (lines 488 to 529), the single-shot transport. \<open>requestJson\<close> is given by
  what it returns (\<open>Inr\<close>) or the message of what it throws (\<open>Inl\<close>). The abort signal is
  passed in and not looked at (\<open>void signal\<close>).
\<close>

definition callChatApi :: "environment \<Rightarrow> jstring + json \<Rightarrow> jstring + ChatApiResponse" where
  "callChatApi env requestJson =
     (if apiHost env = [] then Inl (js ''API host is not configured. Set it in settings.'')
      else
        (case buildApiUrl env (apiChatPath env) of
           Inl error \<Rightarrow> Inl error
         | Inr url \<Rightarrow>
             (case requestJson of
                Inl error \<Rightarrow> Inl error
              | Inr result \<Rightarrow>
                  (let content =
                         (if typeof_object result \<and> result \<noteq> JNull
                          then coalesce (get_prop result (js ''message''))
                                 (coalesce (get_prop result (js ''response''))
                                    (get_prop result (js ''content'')))
                          else None)
                   in case string_of content of
                        Some c \<Rightarrow> Inr \<lparr>message = c, artifactPaths = extractArtifactPaths c\<rparr>
                      | None \<Rightarrow> Inl (js ''Chat API returned an unexpected response.'')))))"

text \<open>
  \<open>callChatApiStream\<close> (lines 531 to 550): what the caller observes of one send call.
  \<open>outcome\<close> is \<open>None\<close> when the promise of the socket call never settles.
\<close>

record send_call =
  outcome :: "settlement option"
  chunks :: "jstring list"
  fallback_attempted :: bool

definition callChatApiStream ::
  "(jstring \<Rightarrow> json option) \<Rightarrow> environment \<Rightarrow> bool \<Rightarrow> ws_event list \<Rightarrow> jstring + json \<Rightarrow> send_call" where
  "callChatApiStream parse env aborted events requestJson =
     (let s = callChatApiWebSocket parse env aborted events in
      case promise s of
        None \<Rightarrow> \<lparr>outcome = None, chunks = onChunk_calls s, fallback_attempted = False\<rparr>
      | Some (Resolved result) \<Rightarrow>
          \<lparr>outcome = Some (Resolved result), chunks = onChunk_calls s, fallback_attempted = False\<rparr>
      | Some (Rejected error) \<Rightarrow>
          if isAbortError error then
            \<lparr>outcome = Some (Rejected error), chunks = onChunk_calls s, fallback_attempted = False\<rparr>
          else
            (case callChatApi env requestJson of
               Inl error' \<Rightarrow>
                 \<lparr>outcome = Some (Rejected error'), chunks = onChunk_calls s,
                  fallback_attempted = True\<rparr>
             | Inr response \<Rightarrow>
                 \<lparr>outcome = Some (Resolved response),
                  chunks = onChunk_calls s
                    @ (if length (message response) > 0 then [message response] else []),
                  fallback_attempted = True\<rparr>))"

section \<open>Invariant of a socket call\<close>


text \<open>
  Observers of \<open>extractArtifactPaths\<close>: a line whose trimmed form
  starts with the marker, and the path that a bullet line carries.
\<close>

definition is_marker_line :: "jstring \<Rightarrow> bool" where
  "is_marker_line line = startsWith (trim line) ARTIFACT_MARKER"

definition bullet_path :: "jstring \<Rightarrow> jstring option" where
  "bullet_path line = match_artifact (trim line)"

section \<open>The snapshot tracker\<close>

text \<open>
  Of a \<open>TFile\<close> the snapshot uses the path and \<open>stat.mtime\<close>.
\<close>

record TFile =
  path :: jstring
  mtime :: real

text \<open>
  \<open>readSnapshot\<close> (lines 953 to 967). The file is given by its content, \<open>None\<close> when no
  file is at the path. The function returns what \<open>JSON.parse\<close> returns, whatever its
  shape, or \<open>null\<close>.
\<close>

definition readSnapshot :: "(jstring \<Rightarrow> json option) \<Rightarrow> jstring option \<Rightarrow> json" where
  "readSnapshot parse file =
     (case file of
        None \<Rightarrow> JNull
      | Some content \<Rightarrow> (case parse content of None \<Rightarrow> JNull | Some v \<Rightarrow> v))"



datatype js_error = TypeError

record snapshot_state =
  snapshot_exists :: bool
  changed :: bool

text \<open>
  \<open>new Map(files.map(file => [file.path, file.stat.mtime]))\<close>: a later file replaces an
  earlier one of the same path; \<open>size\<close> counts the paths.
\<close>

definition currentMap_of :: "TFile list \<Rightarrow> (jstring \<rightharpoonup> real)" where
  "currentMap_of files = map_of (rev (map (\<lambda>file. (path file, mtime file)) files))"

definition currentMap_size :: "TFile list \<Rightarrow> nat" where
  "currentMap_size files = length (remdups (map path files))"

text \<open>\<open>v.length\<close> of a value that is neither \<open>null\<close> nor \<open>undefined\<close>.\<close>

fun length_of :: "json \<Rightarrow> json option" where
  "length_of (JArr xs) = Some (JNum (real (length xs)))"
| "length_of (JStr s) = Some (JNum (real (length s)))"
| "length_of (JObj kvs) = map_of kvs (js ''length'')"
| "length_of _ = None"

text \<open>
  What \<open>for (const entry of v)\<close> iterates over: the elements of an array, the characters
  of a string (each a string, here one per code unit); any other value that reaches the
  loop is not iterable.
\<close>

fun entries_of :: "json \<Rightarrow> js_error + json list" where
  "entries_of (JArr xs) = Inr xs"
| "entries_of (JStr s) = Inr (map (\<lambda>c. JStr [c]) s)"
| "entries_of _ = Inl TypeError"

text \<open>The loop of \<open>getSnapshotState\<close>; the result is the field \<open>changed\<close>.\<close>

fun snapshot_loop :: "(jstring \<rightharpoonup> real) \<Rightarrow> json list \<Rightarrow> js_error + bool" where
  "snapshot_loop currentMap [] = Inr False"
| "snapshot_loop currentMap (entry # rest) =
     (if entry = JNull then Inl TypeError
      else
        let currentMtime = (case string_of (get_prop entry (js ''path'')) of
                              Some p \<Rightarrow> currentMap p
                            | None \<Rightarrow> None)
        in if currentMtime = None \<or> map_option JNum currentMtime \<noteq> get_prop entry (js ''mtime'')
           then Inr True
           else snapshot_loop currentMap rest)"

text \<open>
  \<open>getSnapshotState\<close> (lines 931 to 951) on what \<open>readSnapshot\<close> returned. \<open>Inl\<close> is the
  error with which the promise rejects.
\<close>

definition getSnapshotState :: "json \<Rightarrow> TFile list \<Rightarrow> js_error + snapshot_state" where
  "getSnapshotState snapshot files =
     (if \<not> truthy snapshot then Inr \<lparr>snapshot_exists = False, changed = False\<rparr>
      else
        (case get_prop snapshot (js ''files'') of
           None \<Rightarrow> Inl TypeError
         | Some fs \<Rightarrow>
             if fs = JNull then Inl TypeError
             else if length_of fs \<noteq> Some (JNum (real (currentMap_size files)))
             then Inr \<lparr>snapshot_exists = True, changed = True\<rparr>
             else
               (case entries_of fs of
                  Inl e \<Rightarrow> Inl e
                | Inr entries \<Rightarrow>
                    (case snapshot_loop (currentMap_of files) entries of
                       Inl e \<Rightarrow> Inl e
                     | Inr c \<Rightarrow> Inr \<lparr>snapshot_exists = True, changed = c\<rparr>))))"

section \<open>The chat log\<close>

datatype role = User | Assistant | System

fun role_name :: "role \<Rightarrow> jstring" where
  "role_name User = js ''user''"
| "role_name Assistant = js ''assistant''"
| "role_name System = js ''system''"

record ChatLogEntry =
  role :: role
  content :: jstring
  timestamp :: "jstring option"

text \<open>
  \<open>normalizeTimestamp\<close> and \<open>extractTimestamp\<close> (lines 1198 to 1226). The two uses of the
  platform's \<open>Date\<close> are parameters: the ISO string of the date that a string parses to,
  and the ISO string of the date at a number of milliseconds, each \<open>None\<close> when the date
  is invalid.
\<close>

definition normalizeTimestamp ::
  "(jstring \<Rightarrow> jstring option) \<Rightarrow> (real \<Rightarrow> jstring option) \<Rightarrow> json option \<Rightarrow> jstring option" where
  "normalizeTimestamp iso_of_string iso_of_ms v =
     (case v of
        Some (JStr s) \<Rightarrow> iso_of_string s
      | Some (JNum n) \<Rightarrow> iso_of_ms (if n < 1000000000000 then n * 1000 else n)
      | _ \<Rightarrow> None)"

definition extractTimestamp ::
  "(jstring \<Rightarrow> jstring option) \<Rightarrow> (real \<Rightarrow> jstring option) \<Rightarrow> json \<Rightarrow> jstring option" where
  "extractTimestamp iso_of_string iso_of_ms record =
     normalizeTimestamp iso_of_string iso_of_ms
       (coalesce (get_prop record (js ''timestamp''))
         (coalesce (get_prop record (js ''time''))
           (coalesce (get_prop record (js ''created_at''))
             (coalesce (get_prop record (js ''createdAt''))
               (coalesce (get_prop record (js ''date''))
                 (coalesce (get_prop record (js ''ts'')) (Some JNull)))))))"

fun role_of :: "json option \<Rightarrow> role option" where
  "role_of (Some (JStr s)) =
     (if s = js ''user'' then Some User
      else if s = js ''assistant'' then Some Assistant
      else if s = js ''system'' then Some System
      else None)"
| "role_of _ = None"

text \<open>The callback of \<open>items.map\<close> in the legacy branch; \<open>None\<close> is the \<open>null\<close> that the filter drops.\<close>

definition legacy_item ::
  "(jstring \<Rightarrow> jstring option) \<Rightarrow> (real \<Rightarrow> jstring option) \<Rightarrow> json \<Rightarrow> ChatLogEntry option" where
  "legacy_item iso_of_string iso_of_ms item =
     (if \<not> truthy item \<or> \<not> typeof_object item then None
      else
        (case role_of (coalesce (get_prop item (js ''role''))
                        (coalesce (get_prop item (js ''type''))
                          (coalesce (get_prop item (js ''author''))
                            (coalesce (get_prop item (js ''sender'')) (Some JNull))))) of
           None \<Rightarrow> None
         | Some r \<Rightarrow>
             (case string_of (coalesce (get_prop item (js ''content''))
                               (coalesce (get_prop item (js ''text''))
                                 (coalesce (get_prop item (js ''message'')) (Some (JStr []))))) of
                None \<Rightarrow> None
              | Some c \<Rightarrow>
                  Some \<lparr>role = r, content = c,
                        timestamp = extractTimestamp iso_of_string iso_of_ms item\<rparr>)))"

text \<open>
  The \<open>try\<close> block of the legacy branch (lines 1093 to 1127); \<open>None\<close> when it throws (the
  \<open>SyntaxError\<close> of the parse, or the \<open>TypeError\<close> of a property read on \<open>null\<close>) and the
  function falls through to the markdown parser.
\<close>

definition legacy_entries ::
  "(jstring \<Rightarrow> json option) \<Rightarrow> (jstring \<Rightarrow> jstring option) \<Rightarrow> (real \<Rightarrow> jstring option)
     \<Rightarrow> jstring \<Rightarrow> ChatLogEntry list option" where
  "legacy_entries parse iso_of_string iso_of_ms trimmed =
     (case parse trimmed of
        None \<Rightarrow> None
      | Some parsed \<Rightarrow>
          (case parsed of
             JArr xs \<Rightarrow> Some (List.map_filter (legacy_item iso_of_string iso_of_ms) xs)
           | JNull \<Rightarrow> None
           | _ \<Rightarrow>
               (case coalesce (get_prop parsed (js ''messages''))
                       (coalesce (get_prop parsed (js ''history''))
                         (coalesce (get_prop parsed (js ''items''))
                           (coalesce (get_prop parsed (js ''log'')) (Some (JArr []))))) of
                  Some (JArr xs) \<Rightarrow> Some (List.map_filter (legacy_item iso_of_string iso_of_ms) xs)
                | _ \<Rightarrow> Some [])))"

text \<open>The line terminators, which \<open>.\<close> of a regular expression does not match.\<close>

definition is_line_terminator :: "nat \<Rightarrow> bool" where
  "is_line_terminator c = (c = 10 \<or> c = 13 \<or> c = 8232 \<or> c = 8233)"

definition dot_plus :: "jstring \<Rightarrow> bool" where
  "dot_plus s = (s \<noteq> [] \<and> \<not> list_ex is_line_terminator s)"

text \<open>
  \<open>line.match(/^## \[(.+)\] (user|assistant)$/u)\<close>: the two capture groups. The
  expression is anchored at both ends, so a line matches in at most one way.
\<close>

definition match_header :: "jstring \<Rightarrow> (jstring \<times> role) option" where
  "match_header line =
     (if \<not> startsWith line (js ''## ['') then None
      else
        let r = drop (length (js ''## ['')) line in
        if endsWith r (js ''] user'') \<and> dot_plus (take (length r - length (js ''] user'')) r)
        then Some (take (length r - length (js ''] user'')) r, User)
        else if endsWith r (js ''] assistant'')
                \<and> dot_plus (take (length r - length (js ''] assistant'')) r)
        then Some (take (length r - length (js ''] assistant'')) r, Assistant)
        else None)"

text \<open>The variables of the markdown parser (lines 1132 to 1164).\<close>

record md_parser =
  messages :: "ChatLogEntry list"
  currentRole :: "role option"
  currentTimestamp :: "jstring option"
  buffer :: "jstring list"

definition flush :: "md_parser \<Rightarrow> md_parser" where
  "flush st =
     (case currentRole st of
        None \<Rightarrow> st
      | Some r \<Rightarrow>
          if length (buffer st) > 0 then
            (let text = trim (join_nl (buffer st)) in
             if length text > 0
             then st\<lparr>messages := messages st
                        @ [\<lparr>role = r, content = text, timestamp = currentTimestamp st\<rparr>]\<rparr>
             else st)
          else st)"

fun md_loop :: "md_parser \<Rightarrow> jstring list \<Rightarrow> md_parser" where
  "md_loop st [] = st"
| "md_loop st (line # lines) =
     (case match_header line of
        Some (ts, r) \<Rightarrow>
          md_loop ((flush st)\<lparr>currentRole := Some r, currentTimestamp := Some ts, buffer := []\<rparr>)
            lines
      | None \<Rightarrow>
          if startsWith line (js ''# Chat history'') then md_loop st lines
          else md_loop (st\<lparr>buffer := buffer st @ [line]\<rparr>) lines)"

definition parse_markdown :: "jstring \<Rightarrow> ChatLogEntry list" where
  "parse_markdown fileContent =
     messages (flush (md_loop
       \<lparr>messages = [], currentRole = None, currentTimestamp = None, buffer = []\<rparr>
       (split_lines fileContent)))"

text \<open>\<open>parseChatLog\<close> (lines 1089 to 1165).\<close>

definition parseChatLog ::
  "(jstring \<Rightarrow> json option) \<Rightarrow> (jstring \<Rightarrow> jstring option) \<Rightarrow> (real \<Rightarrow> jstring option)
     \<Rightarrow> jstring \<Rightarrow> ChatLogEntry list" where
  "parseChatLog parse iso_of_string iso_of_ms fileContent =
     (let trimmed = trim fileContent in
      case (if startsWith trimmed (js ''{'') \<or> startsWith trimmed (js ''['')
            then legacy_entries parse iso_of_string iso_of_ms trimmed else None) of
        Some entries \<Rightarrow> entries
      | None \<Rightarrow> parse_markdown fileContent)"

text \<open>\<open>loadChatEntries\<close> (lines 1080 to 1087) on the content of the file, if there is one.\<close>

definition loadChatEntries ::
  "(jstring \<Rightarrow> json option) \<Rightarrow> (jstring \<Rightarrow> jstring option) \<Rightarrow> (real \<Rightarrow> jstring option)
     \<Rightarrow> jstring option \<Rightarrow> ChatLogEntry list" where
  "loadChatEntries parse iso_of_string iso_of_ms file =
     (case file of
        None \<Rightarrow> []
      | Some fileContent \<Rightarrow> parseChatLog parse iso_of_string iso_of_ms fileContent)"

text \<open>
  \<open>appendTextFile\<close> (lines 408 to 419) and \<open>appendChatLog\<close> (lines 1167 to 1176): the new
  content of the file. The first argument of \<open>appendChatLog\<close> is the time of the call,
  \<open>new Date().toISOString()\<close>.
\<close>

definition appendTextFile :: "jstring option \<Rightarrow> jstring \<Rightarrow> jstring \<Rightarrow> jstring" where
  "appendTextFile existing addition prefixForCreate =
     (case existing of
        Some previous \<Rightarrow> previous @ addition
      | None \<Rightarrow> prefixForCreate @ addition)"

definition appendChatLog :: "jstring \<Rightarrow> jstring option \<Rightarrow> role \<Rightarrow> jstring \<Rightarrow> jstring" where
  "appendChatLog now file r text =
     appendTextFile file
       (js ''## ['' @ now @ js ''] '' @ role_name r @ [10] @ text @ [10, 10])
       (js ''# Chat history'' @ [10, 10])"

text \<open>
  A sequence of appends to a log file that does not exist at first, each given by the time
  of the call, the role and the content.
\<close>

fun append_all :: "jstring option \<Rightarrow> (jstring \<times> role \<times> jstring) list \<Rightarrow> jstring option" where
  "append_all file [] = file"
| "append_all file ((now, r, text) # rest) = append_all (Some (appendChatLog now file r text)) rest"

text \<open>
  The contents that a round trip keeps: not empty, no white space at either
  end, no carriage return directly before a line feed, and no line that the parser reads
  as a header or skips as the title.
\<close>

fun no_crlf :: "jstring \<Rightarrow> bool" where
  "no_crlf [] = True"
| "no_crlf [c] = True"
| "no_crlf (c # d # cs) = (\<not> (c = 13 \<and> d = 10) \<and> no_crlf (d # cs))"

definition content_ok :: "jstring \<Rightarrow> bool" where
  "content_ok text =
     (text \<noteq> [] \<and> \<not> is_ws (hd text) \<and> \<not> is_ws (last text) \<and> no_crlf text
      \<and> \<not> list_ex (\<lambda>line. match_header line \<noteq> None \<or> startsWith line (js ''# Chat history''))
            (split_lines text))"

text \<open>
  Observers for the round trip. An append is given by the time of the call, the role and
  the content: the text it adds to the file, the header line of that text, the entry the
  parser should give back, the appends that a round trip keeps (role \<open>user\<close>
  or \<open>assistant\<close>, a time that \<open>(.+)\<close> matches, a content as above), and the lines of a
  sequence of appended texts.
\<close>

definition log_entry_text :: "jstring \<times> role \<times> jstring \<Rightarrow> jstring" where
  "log_entry_text e =
     (case e of (now, r, text) \<Rightarrow>
        js ''## ['' @ now @ js ''] '' @ role_name r @ [10] @ text @ [10, 10])"

definition log_header :: "jstring \<times> role \<times> jstring \<Rightarrow> jstring" where
  "log_header e = (case e of (now, r, text) \<Rightarrow> js ''## ['' @ now @ js ''] '' @ role_name r)"

definition entry_of :: "jstring \<times> role \<times> jstring \<Rightarrow> ChatLogEntry" where
  "entry_of e = (case e of (now, r, text) \<Rightarrow> \<lparr>role = r, content = text, timestamp = Some now\<rparr>)"

definition entry_ok :: "jstring \<times> role \<times> jstring \<Rightarrow> bool" where
  "entry_ok e = (case e of (now, r, text) \<Rightarrow> r \<noteq> System \<and> dot_plus now \<and> content_ok text)"

fun entries_lines :: "(jstring \<times> role \<times> jstring) list \<Rightarrow> jstring list" where
  "entries_lines [] = [[]]"
| "entries_lines ((now, r, text) # es) =
     log_header (now, r, text) # split_lines text @ [[]] @ entries_lines es"

section \<open>Properties of the reveal scheduler\<close>

lemma catchup_of_div: "catchup_of r = (r + 19) div 20"
proof -
  have "\<lceil>real r / 20\<rceil> = int ((r + 19) div 20)"
  proof (rule ceiling_unique)
    show "of_int (int ((r + 19) div 20)) - 1 < real r / 20"
    proof -
      have "20 * ((r + 19) div 20) < r + 20" by arith
      hence "real (20 * ((r + 19) div 20)) < real (r + 20)" by (rule iffD2 [OF of_nat_less_iff])
      thus ?thesis by simp
    qed
    show "real r / 20 \<le> of_int (int ((r + 19) div 20))"
    proof -
      have "r \<le> 20 * ((r + 19) div 20)" by arith
      hence "real r \<le> real (20 * ((r + 19) div 20))" by (rule iffD2 [OF of_nat_le_iff])
      thus ?thesis by simp
    qed
  qed
  thus ?thesis by (simp add: catchup_of_def STREAM_TYPING_CATCHUP_WINDOW_def)
qed

lemma tick_active:
  assumes "streamingRenderTarget s = Some body"
    and "streamingTypingProgress s < length (streamingRenderText s)"
  shows "tickStreamingTyping s =
     s\<lparr>streamingTypingProgress :=
          min (length (streamingRenderText s))
            (streamingTypingProgress s
             + max STREAM_TYPING_BASE_STEP
                 (catchup_of (length (streamingRenderText s) - streamingTypingProgress s))),
       shown := shown s @ [(body, SetText (take
          (min (length (streamingRenderText s))
            (streamingTypingProgress s
             + max STREAM_TYPING_BASE_STEP
                 (catchup_of (length (streamingRenderText s) - streamingTypingProgress s))))
          (streamingRenderText s)))]\<rparr>"
  using assms by (auto simp: tickStreamingTyping_def Let_def)

lemma reached_within_bound:
  "streamingRenderTarget s = Some body \<Longrightarrow> streamingTypingTimer s \<Longrightarrow>
   streamingTypingProgress s \<le> length (streamingRenderText s) \<Longrightarrow>
   length (streamingRenderText s) - streamingTypingProgress s \<le> STREAM_TYPING_BASE_STEP * k \<Longrightarrow>
   reached_within k s"
proof (induction k arbitrary: s)
  case 0
  then show ?case by simp
next
  case (Suc k)
  show ?case
  proof (cases "streamingTypingProgress s = length (streamingRenderText s)")
    case True
    then show ?thesis by simp
  next
    case False
    with Suc.prems have lt: "streamingTypingProgress s < length (streamingRenderText s)" by simp
    let ?s' = "interval_fires s"
    have eq: "?s' = tickStreamingTyping s" using Suc.prems by (simp add: interval_fires_def)
    note t = tick_active [OF Suc.prems(1) lt]
    have "reached_within k ?s'"
    proof (rule Suc.IH)
      show "streamingRenderTarget ?s' = Some body" using Suc.prems by (simp add: eq t)
      show "streamingTypingTimer ?s'" using Suc.prems by (simp add: eq t)
      show "streamingTypingProgress ?s' \<le> length (streamingRenderText ?s')" by (simp add: eq t)
      show "length (streamingRenderText ?s') - streamingTypingProgress ?s' \<le> STREAM_TYPING_BASE_STEP * k"
        using Suc.prems(4) lt by (simp add: eq t STREAM_TYPING_BASE_STEP_def)
    qed
    then show ?thesis by simp
  qed
qed

lemma tick_le:
  "streamingTypingProgress (tickStreamingTyping s) \<le> length (streamingRenderText (tickStreamingTyping s))"
  by (auto simp: tickStreamingTyping_def Let_def stopStreamingTyping_def completeFinalize_def
      split: option.splits)

lemma tick_text: "streamingRenderText (tickStreamingTyping s) = streamingRenderText s"
  by (auto simp: tickStreamingTyping_def Let_def stopStreamingTyping_def completeFinalize_def
      split: option.splits)

lemma run_ticks_le:
  "streamingTypingProgress s \<le> length (streamingRenderText s) \<Longrightarrow>
   streamingTypingProgress (run_ticks k s) \<le> length (streamingRenderText s)
   \<and> streamingRenderText (run_ticks k s) = streamingRenderText s"
  by (induction k arbitrary: s)
    (auto simp: interval_fires_def tick_le tick_text, (metis tick_le tick_text)+)

declare catchup_of_div [code]

text \<open>
  C3 (as stated, refuted). The claim says that the revealed count reaches the length of the
  target within \<open>catchupWindow\<close> = 20 ticks once the target stops growing. A target of
  42 code units set by \<open>updateTypingText\<close> on a fresh modal is not fully revealed within
  20 firings of the interval: the first step is 3, the next nineteen are 2 each, and 41
  of the 42 code units are revealed.
\<close>

theorem reveal_not_within_catchup_window:
  "\<not> reached_within STREAM_TYPING_CATCHUP_WINDOW
       (updateTypingText 0 (replicate 42 97) new_chat_modal)
   \<and> streamingTypingProgress
       (run_ticks STREAM_TYPING_CATCHUP_WINDOW
          (updateTypingText 0 (replicate 42 97) new_chat_modal)) = 41"
  by code_simp

text \<open>
  C3 (amended). While the reveal of a fixed target text is in progress (a render target
  is set, the interval is running and unrevealed text remains), each firing of the
  interval advances the revealed count by
  \<open>step = max(baseStep, ceil(remaining / catchupWindow))\<close>, capped at the length of the
  target: the count strictly increases and never exceeds the length of the target, after
  any number of firings it is still at most that length, and it reaches that length
  within \<open>k\<close> firings whenever \<open>remaining \<le> baseStep * k\<close>; so within catchupWindow = 20
  firings when at most 40 code units remain.
\<close>

theorem reveal_progress:
  assumes "streamingRenderTarget s = Some body"
    and "streamingTypingTimer s"
    and "streamingTypingProgress s < length (streamingRenderText s)"
    and "length (streamingRenderText s) - streamingTypingProgress s \<le> STREAM_TYPING_BASE_STEP * k"
  shows "streamingTypingProgress (interval_fires s) =
           min (length (streamingRenderText s))
             (streamingTypingProgress s
              + max STREAM_TYPING_BASE_STEP
                  (nat \<lceil>real (length (streamingRenderText s) - streamingTypingProgress s)
                         / real STREAM_TYPING_CATCHUP_WINDOW\<rceil>))
       \<and> streamingTypingProgress s < streamingTypingProgress (interval_fires s)
       \<and> streamingTypingProgress (interval_fires s) \<le> length (streamingRenderText s)
       \<and> streamingRenderText (interval_fires s) = streamingRenderText s
       \<and> streamingTypingProgress (run_ticks j s) \<le> length (streamingRenderText s)
       \<and> reached_within k s
       \<and> (length (streamingRenderText s) - streamingTypingProgress s \<le> 40
            \<longrightarrow> reached_within STREAM_TYPING_CATCHUP_WINDOW s)"
proof -
  have eq: "interval_fires s = tickStreamingTyping s"
    using assms(2) by (simp add: interval_fires_def)
  note t = tick_active [OF assms(1) assms(3)]
  have le: "streamingTypingProgress s \<le> length (streamingRenderText s)"
    using assms(3) by simp
  have a: "streamingTypingProgress (interval_fires s) =
           min (length (streamingRenderText s))
             (streamingTypingProgress s
              + max STREAM_TYPING_BASE_STEP
                  (nat \<lceil>real (length (streamingRenderText s) - streamingTypingProgress s)
                         / real STREAM_TYPING_CATCHUP_WINDOW\<rceil>))"
    by (simp add: eq t catchup_of_def)
  have b: "streamingTypingProgress s < streamingTypingProgress (interval_fires s)"
    using assms(3) by (simp add: eq t STREAM_TYPING_BASE_STEP_def)
  have c: "streamingTypingProgress (interval_fires s) \<le> length (streamingRenderText s)"
    by (simp add: eq t)
  have d: "streamingRenderText (interval_fires s) = streamingRenderText s"
    by (simp add: eq tick_text)
  have e: "streamingTypingProgress (run_ticks j s) \<le> length (streamingRenderText s)"
    using run_ticks_le [OF le] by simp
  have f: "reached_within k s"
    by (rule reached_within_bound [OF assms(1) assms(2) le assms(4)])
  have g: "length (streamingRenderText s) - streamingTypingProgress s \<le> 40
            \<longrightarrow> reached_within STREAM_TYPING_CATCHUP_WINDOW s"
  proof
    assume "length (streamingRenderText s) - streamingTypingProgress s \<le> 40"
    hence "length (streamingRenderText s) - streamingTypingProgress s
             \<le> STREAM_TYPING_BASE_STEP * STREAM_TYPING_CATCHUP_WINDOW"
      by (simp add: STREAM_TYPING_BASE_STEP_def STREAM_TYPING_CATCHUP_WINDOW_def)
    thus "reached_within STREAM_TYPING_CATCHUP_WINDOW s"
      by (rule reached_within_bound [OF assms(1) assms(2) le])
  qed
  from a b c d e f g show ?thesis by blast
qed

theorem reveal_progress_witness:
  "streamingRenderTarget (updateTypingText 0 (js ''Hello'') new_chat_modal) = Some 0
   \<and> streamingTypingTimer (updateTypingText 0 (js ''Hello'') new_chat_modal)
   \<and> streamingTypingProgress (updateTypingText 0 (js ''Hello'') new_chat_modal) = 0
   \<and> length (streamingRenderText (updateTypingText 0 (js ''Hello'') new_chat_modal)) = 5
   \<and> streamingTypingProgress (interval_fires (updateTypingText 0 (js ''Hello'') new_chat_modal)) = 2
   \<and> reached_within 3 (updateTypingText 0 (js ''Hello'') new_chat_modal)
   \<and> reached_within STREAM_TYPING_CATCHUP_WINDOW (updateTypingText 0 (js ''Hello'') new_chat_modal)"
proof -
  let ?s = "updateTypingText 0 (js ''Hello'') new_chat_modal"
  have h1: "streamingRenderTarget ?s = Some 0"
    by (simp add: updateTypingText_def new_chat_modal_def)
  have h2: "streamingTypingTimer ?s"
    by (simp add: updateTypingText_def new_chat_modal_def)
  have p0: "streamingTypingProgress ?s = 0"
    by (simp add: updateTypingText_def new_chat_modal_def)
  have n5: "length (streamingRenderText ?s) = 5"
    by (simp add: updateTypingText_def new_chat_modal_def js_def)
  have h3: "streamingTypingProgress ?s < length (streamingRenderText ?s)"
    by (simp add: p0 n5)
  have h4: "length (streamingRenderText ?s) - streamingTypingProgress ?s
              \<le> STREAM_TYPING_BASE_STEP * 3"
    by (simp add: p0 n5 STREAM_TYPING_BASE_STEP_def)
  have c: "nat \<lceil>real (5::nat) / real STREAM_TYPING_CATCHUP_WINDOW\<rceil> = 1"
    using catchup_of_div [of 5] by (simp add: catchup_of_def)
  from reveal_progress [OF h1 h2 h3 h4, of 0] h1 h2 p0 n5 c show ?thesis
    by (simp add: STREAM_TYPING_BASE_STEP_def)
qed

section \<open>Properties of the streaming transport\<close>















lemma step_settled: "settled s \<Longrightarrow> \<not> openTimeout_set s \<Longrightarrow> ws_step parse s e = s"
  by (cases e) (simp_all add: onopen_def onmessage_def onerror_def rejectOnce_def onclose_def
      abort_fires_def openTimeout_fires_def)

lemma foldl_settled: "settled s \<Longrightarrow> \<not> openTimeout_set s \<Longrightarrow> foldl (ws_step parse) s evs = s"
  by (induction evs) (simp_all add: step_settled)


lemma ws_call_made:
  "makes_socket env \<Longrightarrow>
   callChatApiWebSocket parse env aborted events =
     foldl (ws_step parse) (if aborted then onAbort new_socket_call else new_socket_call) events"
  by (auto simp: makes_socket_def callChatApiWebSocket_def split: sum.splits option.splits)

lemma pending_makes_socket:
  "\<not> settled (callChatApiWebSocket parse env aborted events) \<Longrightarrow> makes_socket env"
  by (auto simp: makes_socket_def callChatApiWebSocket_def rejected_before_socket_def
      split: sum.splits option.splits if_splits)

lemma ws_call_append:
  assumes "makes_socket env"
  shows "callChatApiWebSocket parse env aborted (pre @ e # post) =
     foldl (ws_step parse) (ws_step parse (callChatApiWebSocket parse env aborted pre) e) post"
  by (simp add: ws_call_made [OF assms])




lemmas transport_eval =
  callChatApiWebSocket_def callChatApiStream_def callChatApi_def new_socket_call_def
  rejected_before_socket_def makes_socket_def buildApiUrl_def buildChatWebSocketUrl_def
  example_env_def
  onopen_def onmessage_def parse_then_handle_def handleFrame_def onerror_def onclose_def
  abort_fires_def onAbort_def openTimeout_fires_def
  onChunk_def socket_close_def finalizeWithText_def resolveOnce_def rejectOnce_def
  isAbortError_def toLowerCase_def coalesce_def
  extractArtifactPaths_def match_artifact_def ARTIFACT_MARKER_def
  trim_def is_ws_def startsWith_def endsWith_def js_def Let_def




lemma close_state:
  assumes "\<not> settled s" and "code = 1000 \<or> fullText s \<noteq> []"
  shows "onclose code s = s\<lparr>settled := True, openTimeout_set := False,
      promise := Some (Resolved \<lparr>message = fullText s, artifactPaths = extractArtifactPaths (fullText s)\<rparr>)\<rparr>"
proof (cases "code = 1000")
  case True
  with assms(1) show ?thesis by (simp add: onclose_def finalizeWithText_def resolveOnce_def)
next
  case False
  with assms have "fullText s \<noteq> []" by simp
  with assms(1) False show ?thesis by (simp add: onclose_def finalizeWithText_def resolveOnce_def)
qed

text \<open>
  C10 (as stated, refuted). A browser reports an abnormal closure by an error event and
  then a close event with the code 1006. After the chunk \<open>Hi\<close> the error event rejects the
  socket call and removes the close handler, so the call does not resolve with \<open>Hi\<close>: the
  single-shot transport is attempted and its answer is passed to \<open>onChunk\<close> after \<open>Hi\<close>.
  And a close with the code 1000 that follows an abort does not resolve the call either.
\<close>

theorem close_after_error_falls_back:
  "callChatApiStream Map.empty example_env False
      [Open, Message (StringData (js ''Hi'')), SocketError, Close 1006]
      (Inr (JObj [(js ''message'', JStr (js ''Hi there''))]))
     = \<lparr>outcome = Some (Resolved \<lparr>message = js ''Hi there'', artifactPaths = []\<rparr>),
        chunks = [js ''Hi'', js ''Hi there''], fallback_attempted = True\<rparr>
   \<and> callChatApiStream Map.empty example_env False [Open, Abort, Close 1000]
      (Inr (JObj [(js ''message'', JStr (js ''Hi there''))]))
     = \<lparr>outcome = Some (Rejected (js ''Request aborted'')), chunks = [],
        fallback_attempted = False\<rparr>"
  by (simp add: transport_eval)

text \<open>
  C10 (amended). When the close event reaches a send call that is still pending (no error
  event, done frame, sentinel, abort or open timeout has settled it) with a code other
  than 1000 after at least one code unit of text has been accumulated, the call resolves
  with the accumulated text as its message, and the single-shot transport is not
  attempted; with the code 1000 it resolves in the same way whatever has been accumulated,
  so with an empty message when nothing has.
\<close>

theorem close_resolves_with_accumulated_text:
  assumes "\<not> settled (callChatApiWebSocket parse env aborted pre)"
    and "code = 1000 \<or> length (fullText (callChatApiWebSocket parse env aborted pre)) > 0"
  shows "callChatApiStream parse env aborted (pre @ Close code # post) requestJson =
           \<lparr>outcome = Some (Resolved
               \<lparr>message = fullText (callChatApiWebSocket parse env aborted pre),
                artifactPaths = extractArtifactPaths (fullText (callChatApiWebSocket parse env aborted pre))\<rparr>),
            chunks = onChunk_calls (callChatApiWebSocket parse env aborted pre),
            fallback_attempted = False\<rparr>"
proof -
  let ?s = "callChatApiWebSocket parse env aborted pre"
  note made = pending_makes_socket [OF assms(1)]
  have c: "code = 1000 \<or> fullText ?s \<noteq> []" using assms(2) by auto
  note st = close_state [OF assms(1) c]
  have sa: "foldl (ws_step parse) (onclose code ?s) post = onclose code ?s"
    by (rule foldl_settled) (simp_all add: st)
  have fin: "callChatApiWebSocket parse env aborted (pre @ Close code # post) = onclose code ?s"
    by (simp add: ws_call_append [OF made] sa)
  show ?thesis
    unfolding callChatApiStream_def fin by (simp add: st Let_def)
qed

theorem close_resolves_with_accumulated_text_witness:
  "\<not> settled (callChatApiWebSocket Map.empty example_env False [Open, Message (StringData (js ''Hi''))])
   \<and> length (fullText (callChatApiWebSocket Map.empty example_env False
        [Open, Message (StringData (js ''Hi''))])) > 0
   \<and> callChatApiStream Map.empty example_env False
        ([Open, Message (StringData (js ''Hi''))] @ Close 1006 # [])
        (Inr (JObj [(js ''message'', JStr (js ''ok''))]))
      = \<lparr>outcome = Some (Resolved \<lparr>message = js ''Hi'', artifactPaths = []\<rparr>),
         chunks = [js ''Hi''], fallback_attempted = False\<rparr>
   \<and> callChatApiStream Map.empty example_env False ([Open] @ Close 1000 # [])
        (Inr (JObj [(js ''message'', JStr (js ''ok''))]))
      = \<lparr>outcome = Some (Resolved \<lparr>message = [], artifactPaths = []\<rparr>),
         chunks = [], fallback_attempted = False\<rparr>"
proof -
  let ?pre = "[Open, Message (StringData (js ''Hi''))]"
  have h3: "\<not> settled (callChatApiWebSocket Map.empty example_env False ?pre)"
    by (simp add: transport_eval)
  have f: "fullText (callChatApiWebSocket Map.empty example_env False ?pre) = js ''Hi''"
    by (simp add: transport_eval)
  have c: "onChunk_calls (callChatApiWebSocket Map.empty example_env False ?pre) = [js ''Hi'']"
    by (simp add: transport_eval)
  have x: "extractArtifactPaths (js ''Hi'') = []" "extractArtifactPaths [] = []"
    by (simp_all add: transport_eval)
  have len: "length (fullText (callChatApiWebSocket Map.empty example_env False ?pre)) > 0"
    unfolding f by (simp add: js_def)
  have h4: "1006 = (1000::nat) \<or> length (fullText (callChatApiWebSocket Map.empty example_env False ?pre)) > 0"
    using len by simp
  have g3: "\<not> settled (callChatApiWebSocket Map.empty example_env False [Open])"
    by (simp add: transport_eval)
  have g: "fullText (callChatApiWebSocket Map.empty example_env False [Open]) = []"
    "onChunk_calls (callChatApiWebSocket Map.empty example_env False [Open]) = []"
    by (simp_all add: transport_eval)
  have g4: "1000 = (1000::nat) \<or> length (fullText (callChatApiWebSocket Map.empty example_env False [Open])) > 0"
    by simp
  have one: "callChatApiStream Map.empty example_env False (?pre @ Close 1006 # [])
        (Inr (JObj [(js ''message'', JStr (js ''ok''))]))
      = \<lparr>outcome = Some (Resolved \<lparr>message = js ''Hi'', artifactPaths = []\<rparr>),
         chunks = [js ''Hi''], fallback_attempted = False\<rparr>"
    using close_resolves_with_accumulated_text [OF h3 h4, of "[]"
      "Inr (JObj [(js ''message'', JStr (js ''ok''))])"] by (simp only: f c x)
  have two: "callChatApiStream Map.empty example_env False ([Open] @ Close 1000 # [])
        (Inr (JObj [(js ''message'', JStr (js ''ok''))]))
      = \<lparr>outcome = Some (Resolved \<lparr>message = [], artifactPaths = []\<rparr>),
         chunks = [], fallback_attempted = False\<rparr>"
    using close_resolves_with_accumulated_text [OF g3 g4, of "[]"
      "Inr (JObj [(js ''message'', JStr (js ''ok''))])"] by (simp only: g x)
  from h3 len one two show ?thesis by blast
qed




text \<open>
  \<open>handleFrame\<close> throws the detail of an error frame: the \<open>message\<close> field when it is a
  string, else the \<open>error\<close> field when it is a string, else a generic phrase.
\<close>

lemma handleFrame_error_frame:
  "handleFrame (JObj ((js ''type'', JStr (js ''error'')) # kvs)) s =
     Inl (case string_of (get_prop (JObj ((js ''type'', JStr (js ''error'')) # kvs)) (js ''message'')) of
            Some m \<Rightarrow> m
          | None \<Rightarrow>
              (case string_of (get_prop (JObj ((js ''type'', JStr (js ''error'')) # kvs)) (js ''error'')) of
                 Some e \<Rightarrow> e
               | None \<Rightarrow> js ''Chat websocket error.''))"
  by (simp add: handleFrame_def)

lemma handleFrame_boom:
  "handleFrame (JObj [(js ''type'', JStr (js ''error'')), (js ''message'', JStr (js ''boom''))]) s
     = Inl (js ''boom'')"
  by (simp add: handleFrame_def js_def)

text \<open>
  C1 (failing input). The error frame \<open>{"type":"error","message":"boom"}\<close> arrives on an
  open stream, which then closes with the code 1000. \<open>handleFrame\<close> throws the error with
  the detail \<open>boom\<close>, but the call of \<open>handleFrame\<close> stands inside the \<open>try\<close> whose \<open>catch\<close>
  is meant for the failure of the parse: the error is swallowed there, the raw unit is
  handled again as literal text and passed to \<open>onChunk\<close>, and the call resolves with the
  JSON text of the frame as its message, where it should reject with the detail.
\<close>

theorem error_frame_does_not_fail_the_call:
  "callChatApiStream
     (Map.empty (js ''{\"type\":\"error\",\"message\":\"boom\"}'' \<mapsto>
        JObj [(js ''type'', JStr (js ''error'')), (js ''message'', JStr (js ''boom''))]))
     example_env False
     [Open, Message (StringData (js ''{\"type\":\"error\",\"message\":\"boom\"}'')), Close 1000]
     (Inl (js ''unused''))
   = \<lparr>outcome = Some (Resolved
         \<lparr>message = js ''{\"type\":\"error\",\"message\":\"boom\"}'', artifactPaths = []\<rparr>),
      chunks = [js ''{\"type\":\"error\",\"message\":\"boom\"}''],
      fallback_attempted = False\<rparr>"
  by (simp add: transport_eval)

text \<open>
  C9 (amended). Of the inbound units that reach a pending call, a string or an
  \<open>ArrayBuffer\<close> is first parsed as JSON. One that does not parse is taken whole as literal
  text: it ends the stream when its trimmed form is one of the two sentinels and is chunk
  text otherwise. One that parses to a value that is neither a string nor an object of a
  recognised shape is ignored: nothing is passed to \<open>onChunk\<close> and the state of the call
  is unchanged. A unit of any other kind (a \<open>Blob\<close>, say) is not parsed: the string that
  \<open>String\<close> makes of it is taken as literal text in the same way.
\<close>

theorem inbound_unit_decoding:
  assumes "\<not> settled s"
  shows "((d = StringData raw \<or> d = ArrayBufferData raw) \<and> parse raw = None \<longrightarrow>
            onmessage parse d s =
              (if trim raw = js ''[DONE]'' \<or> trim raw = js ''__DONE__''
               then socket_close (Some 1000) (Some (js ''done'')) (finalizeWithText (fullText s) s)
               else s\<lparr>fullText := fullText s @ raw, onChunk_calls := onChunk_calls s @ [raw]\<rparr>))
       \<and> ((d = StringData raw \<or> d = ArrayBufferData raw) \<and> parse raw = Some v
            \<and> (\<forall>str. v \<noteq> JStr str)
            \<and> get_prop v (js ''type'') \<noteq> Some (JStr (js ''error''))
            \<and> get_prop v (js ''type'') \<noteq> Some (JStr (js ''chunk''))
            \<and> get_prop v (js ''type'') \<noteq> Some (JStr (js ''done''))
            \<and> get_prop v (js ''done'') \<noteq> Some (JBool True)
            \<and> string_of (get_prop v (js ''message'')) = None
            \<and> string_of (get_prop v (js ''response'')) = None
            \<and> string_of (get_prop v (js ''content'')) = None
            \<and> string_of (get_prop v (js ''text'')) = None
            \<longrightarrow> onmessage parse d s = s)
       \<and> onmessage parse (OtherData other) s =
            (if trim other = js ''[DONE]'' \<or> trim other = js ''__DONE__''
             then socket_close (Some 1000) (Some (js ''done'')) (finalizeWithText (fullText s) s)
             else s\<lparr>fullText := fullText s @ other, onChunk_calls := onChunk_calls s @ [other]\<rparr>)"
proof -
  have om: "d = StringData raw \<or> d = ArrayBufferData raw \<Longrightarrow> onmessage parse d s =
      (case parse_then_handle parse raw s of Inl error \<Rightarrow> rejectOnce error s | Inr s' \<Rightarrow> s')"
    using assms by (auto simp: onmessage_def)
  have a: "(d = StringData raw \<or> d = ArrayBufferData raw) \<and> parse raw = None \<longrightarrow>
            onmessage parse d s =
              (if trim raw = js ''[DONE]'' \<or> trim raw = js ''__DONE__''
               then socket_close (Some 1000) (Some (js ''done'')) (finalizeWithText (fullText s) s)
               else s\<lparr>fullText := fullText s @ raw, onChunk_calls := onChunk_calls s @ [raw]\<rparr>)"
  proof
    assume h: "(d = StringData raw \<or> d = ArrayBufferData raw) \<and> parse raw = None"
    hence k: "d = StringData raw \<or> d = ArrayBufferData raw" and n: "parse raw = None"
      by simp_all
    show "onmessage parse d s =
              (if trim raw = js ''[DONE]'' \<or> trim raw = js ''__DONE__''
               then socket_close (Some 1000) (Some (js ''done'')) (finalizeWithText (fullText s) s)
               else s\<lparr>fullText := fullText s @ raw, onChunk_calls := onChunk_calls s @ [raw]\<rparr>)"
      by (simp add: om [OF k] n parse_then_handle_def handleFrame_def Let_def onChunk_def)
  qed
  have b: "(d = StringData raw \<or> d = ArrayBufferData raw) \<and> parse raw = Some v
            \<and> (\<forall>str. v \<noteq> JStr str)
            \<and> get_prop v (js ''type'') \<noteq> Some (JStr (js ''error''))
            \<and> get_prop v (js ''type'') \<noteq> Some (JStr (js ''chunk''))
            \<and> get_prop v (js ''type'') \<noteq> Some (JStr (js ''done''))
            \<and> get_prop v (js ''done'') \<noteq> Some (JBool True)
            \<and> string_of (get_prop v (js ''message'')) = None
            \<and> string_of (get_prop v (js ''response'')) = None
            \<and> string_of (get_prop v (js ''content'')) = None
            \<and> string_of (get_prop v (js ''text'')) = None
            \<longrightarrow> onmessage parse d s = s"
  proof
    assume h: "(d = StringData raw \<or> d = ArrayBufferData raw) \<and> parse raw = Some v
            \<and> (\<forall>str. v \<noteq> JStr str)
            \<and> get_prop v (js ''type'') \<noteq> Some (JStr (js ''error''))
            \<and> get_prop v (js ''type'') \<noteq> Some (JStr (js ''chunk''))
            \<and> get_prop v (js ''type'') \<noteq> Some (JStr (js ''done''))
            \<and> get_prop v (js ''done'') \<noteq> Some (JBool True)
            \<and> string_of (get_prop v (js ''message'')) = None
            \<and> string_of (get_prop v (js ''response'')) = None
            \<and> string_of (get_prop v (js ''content'')) = None
            \<and> string_of (get_prop v (js ''text'')) = None"
    hence k: "d = StringData raw \<or> d = ArrayBufferData raw" by simp
    from h have "handleFrame v s = Inr s"
      by (cases v) (simp_all add: handleFrame_def Let_def)
    with h show "onmessage parse d s = s"
      by (simp add: om [OF k] parse_then_handle_def)
  qed
  have c: "onmessage parse (OtherData other) s =
            (if trim other = js ''[DONE]'' \<or> trim other = js ''__DONE__''
             then socket_close (Some 1000) (Some (js ''done'')) (finalizeWithText (fullText s) s)
             else s\<lparr>fullText := fullText s @ other, onChunk_calls := onChunk_calls s @ [other]\<rparr>)"
    using assms by (simp add: onmessage_def handleFrame_def Let_def onChunk_def)
  from a b c show ?thesis by blast
qed

theorem inbound_unit_decoding_witness:
  "\<not> settled new_socket_call
   \<and> onmessage Map.empty (StringData (js ''Hi'')) new_socket_call =
        new_socket_call\<lparr>fullText := js ''Hi'', onChunk_calls := [js ''Hi'']\<rparr>
   \<and> onmessage (Map.empty (js ''{\"foo\":1}'' \<mapsto> JObj [(js ''foo'', JNum 1)]))
        (StringData (js ''{\"foo\":1}'')) new_socket_call = new_socket_call
   \<and> onmessage (Map.empty (js ''[object Blob]'' \<mapsto> JNull)) (OtherData (js ''[object Blob]''))
        new_socket_call =
        new_socket_call\<lparr>fullText := js ''[object Blob]'', onChunk_calls := [js ''[object Blob]'']\<rparr>"
proof -
  have h: "\<not> settled new_socket_call" by (simp add: new_socket_call_def)
  have t: "trim (js ''Hi'') = js ''Hi''" "trim (js ''[object Blob]'') = js ''[object Blob]''"
    by (simp_all add: trim_def is_ws_def js_def)
  have ne: "js ''Hi'' \<noteq> js ''[DONE]''" "js ''Hi'' \<noteq> js ''__DONE__''"
    "js ''[object Blob]'' \<noteq> js ''[DONE]''" "js ''[object Blob]'' \<noteq> js ''__DONE__''"
    by (simp_all add: js_def)
  have e: "fullText new_socket_call = []" "onChunk_calls new_socket_call = []"
    by (simp_all add: new_socket_call_def)
  have one: "onmessage Map.empty (StringData (js ''Hi'')) new_socket_call =
        new_socket_call\<lparr>fullText := js ''Hi'', onChunk_calls := [js ''Hi'']\<rparr>"
    using inbound_unit_decoding [OF h, of "StringData (js ''Hi'')" "js ''Hi''" Map.empty JNull]
    by (simp add: t ne e)
  have two: "onmessage (Map.empty (js ''{\"foo\":1}'' \<mapsto> JObj [(js ''foo'', JNum 1)]))
        (StringData (js ''{\"foo\":1}'')) new_socket_call = new_socket_call"
    using inbound_unit_decoding [OF h, of "StringData (js ''{\"foo\":1}'')" "js ''{\"foo\":1}''"
        "Map.empty (js ''{\"foo\":1}'' \<mapsto> JObj [(js ''foo'', JNum 1)])" "JObj [(js ''foo'', JNum 1)]"]
    by (simp add: js_def)
  have three: "onmessage (Map.empty (js ''[object Blob]'' \<mapsto> JNull))
        (OtherData (js ''[object Blob]'')) new_socket_call =
        new_socket_call\<lparr>fullText := js ''[object Blob]'', onChunk_calls := [js ''[object Blob]'']\<rparr>"
    using inbound_unit_decoding [OF h, of "OtherData (js ''[object Blob]'')" "[]"
        "Map.empty (js ''[object Blob]'' \<mapsto> JNull)" JNull "js ''[object Blob]''"]
    by (simp add: t ne e)
  from h one two three show ?thesis by blast
qed

text \<open>
  C9 (as stated, refuted). The unit \<open>42\<close> parses as JSON to a number, which is none of the
  recognised shapes; it is dropped, not delivered as raw text.
\<close>

theorem parsed_number_is_dropped:
  "onmessage (Map.empty (js ''42'' \<mapsto> JNum 42)) (StringData (js ''42'')) new_socket_call
     = new_socket_call
   \<and> onChunk_calls (onmessage (Map.empty (js ''42'' \<mapsto> JNum 42)) (StringData (js ''42''))
        new_socket_call) = []"
  by (simp add: transport_eval)

section \<open>Properties of the artifact reference extraction\<close>

lemma marker_not_bullet: "is_marker_line l \<Longrightarrow> bullet_path l = None"
  by (cases "trim l")
     (auto simp: is_marker_line_def bullet_path_def startsWith_def ARTIFACT_MARKER_def
        match_artifact_def)

lemma loop_no_marker: "\<not> list_ex is_marker_line ls \<Longrightarrow> artifact_loop False ls = []"
  by (induction ls) (simp_all add: is_marker_line_def Let_def)

lemma loop_skip:
  "\<not> list_ex is_marker_line pre \<Longrightarrow> is_marker_line m \<Longrightarrow>
   artifact_loop False (pre @ m # rest) = artifact_loop True rest"
  by (induction pre) (simp_all add: is_marker_line_def Let_def)

lemma loop_in_block:
  "artifact_loop True rest =
     List.map_filter bullet_path
       (takeWhile (\<lambda>l. is_marker_line l \<or> trim l = [] \<or> bullet_path l \<noteq> None) rest)"
proof (induction rest)
  case Nil
  show ?case by (simp add: List.map_filter_simps)
next
  case (Cons l rest)
  show ?case
  proof (cases "is_marker_line l")
    case True
    with Cons marker_not_bullet [OF True] show ?thesis
      by (simp add: is_marker_line_def Let_def List.map_filter_simps)
  next
    case False
    show ?thesis
    proof (cases "bullet_path l")
      case None
      with False Cons show ?thesis
        by (auto simp: is_marker_line_def bullet_path_def Let_def List.map_filter_simps)
    next
      case (Some p)
      with False Cons show ?thesis
        by (auto simp: is_marker_line_def bullet_path_def Let_def List.map_filter_simps)
    qed
  qed
qed

lemmas artifact_eval =
  extractArtifactPaths_def match_artifact_def ARTIFACT_MARKER_def
  trim_def is_ws_def startsWith_def js_def Let_def

text \<open>
  C5 (as stated, refuted). A blank line after the marker does not end the block: the
  bullet after it is still collected. And a line that only starts with the marker, with
  more text after it, opens the block as well; the bullet may lack the space after the
  dash and carry text after the path.
\<close>

theorem blank_line_does_not_end_the_block:
  "extractArtifactPaths
     (ARTIFACT_MARKER @ [10] @ js ''- /artifacts/a'' @ [10, 10] @ js ''- /artifacts/b'')
     = [js ''/artifacts/a'', js ''/artifacts/b'']
   \<and> extractArtifactPaths
     (ARTIFACT_MARKER @ js '' see below'' @ [10] @ js ''-/artifacts/a  trailing'')
     = [js ''/artifacts/a'']"
  by (simp add: artifact_eval)

text \<open>
  C5 (amended). The lines are those of \<open>split(/\r?\n/)\<close>. A text with no line whose trimmed
  form starts with the marker yields the empty list. Otherwise, after the first such line,
  the result is the paths of the lines whose trimmed form matches
  \<open>/^-\s*(\/artifacts\/\S+)/u\<close> (the first capture group of each), in order, up to the
  first line that is neither blank, nor such a bullet, nor another marker line; blank
  lines and further marker lines inside the block are skipped, and the line that ends the
  block, a malformed bullet for one, raises no error.
\<close>

theorem artifact_block_extraction:
  "(\<not> list_ex is_marker_line (split_lines text) \<longrightarrow> extractArtifactPaths text = [])
   \<and> (split_lines text = pre @ m # rest \<and> \<not> list_ex is_marker_line pre \<and> is_marker_line m \<longrightarrow>
        extractArtifactPaths text =
          List.map_filter bullet_path
            (takeWhile (\<lambda>l. is_marker_line l \<or> trim l = [] \<or> bullet_path l \<noteq> None) rest))"
  by (simp add: extractArtifactPaths_def loop_no_marker loop_skip loop_in_block)

theorem artifact_block_extraction_witness:
  "\<not> list_ex is_marker_line (split_lines (js ''no marker here''))
   \<and> extractArtifactPaths (js ''no marker here'') = []
   \<and> split_lines (ARTIFACT_MARKER @ [10] @ js ''- /artifacts/report.pdf'' @ [10]
        @ js ''- /artifacts/x.csv'' @ [10, 10] @ js ''Extra'')
      = [] @ ARTIFACT_MARKER # [js ''- /artifacts/report.pdf'', js ''- /artifacts/x.csv'', [], js ''Extra'']
   \<and> is_marker_line ARTIFACT_MARKER
   \<and> extractArtifactPaths (ARTIFACT_MARKER @ [10] @ js ''- /artifacts/report.pdf'' @ [10]
        @ js ''- /artifacts/x.csv'' @ [10, 10] @ js ''Extra'')
      = [js ''/artifacts/report.pdf'', js ''/artifacts/x.csv'']"
proof -
  let ?t = "ARTIFACT_MARKER @ [10] @ js ''- /artifacts/report.pdf'' @ [10]
        @ js ''- /artifacts/x.csv'' @ [10, 10] @ js ''Extra''"
  let ?rest = "[js ''- /artifacts/report.pdf'', js ''- /artifacts/x.csv'', [], js ''Extra'']"
  have n: "\<not> list_ex is_marker_line (split_lines (js ''no marker here''))"
    by (simp add: is_marker_line_def artifact_eval)
  have n': "extractArtifactPaths (js ''no marker here'') = []"
    using artifact_block_extraction [of "js ''no marker here''"] n by simp
  have h1: "split_lines ?t = [] @ ARTIFACT_MARKER # ?rest"
    by (simp add: artifact_eval)
  have h2: "\<not> list_ex is_marker_line []" by simp
  have h3: "is_marker_line ARTIFACT_MARKER"
    by (simp add: is_marker_line_def artifact_eval)
  have r: "List.map_filter bullet_path
            (takeWhile (\<lambda>l. is_marker_line l \<or> trim l = [] \<or> bullet_path l \<noteq> None) ?rest)
      = [js ''/artifacts/report.pdf'', js ''/artifacts/x.csv'']"
    by (simp add: is_marker_line_def bullet_path_def List.map_filter_simps artifact_eval)
  have e: "extractArtifactPaths ?t = [js ''/artifacts/report.pdf'', js ''/artifacts/x.csv'']"
    using artifact_block_extraction [of ?t "[]" ARTIFACT_MARKER ?rest] h1 h2 h3 r by simp
  from n n' h1 h3 e show ?thesis by blast
qed

section \<open>Properties of the snapshot tracker\<close>









text \<open>
  C7 (failing input). The snapshot file \<open>{}\<close> parses as JSON but has no \<open>files\<close>:
  \<open>readSnapshot\<close> returns the parsed object, and \<open>getSnapshotState\<close> throws a \<open>TypeError\<close>
  when it reads \<open>snapshot.files.length\<close>, where the claim says that it degrades to the
  state of no snapshot.
\<close>
theorem shape_invalid_snapshot_throws:
  "getSnapshotState (readSnapshot (Map.empty (js ''{}'' \<mapsto> JObj [])) (Some (js ''{}''))) []
     = Inl TypeError"
  by (simp add: readSnapshot_def getSnapshotState_def)

lemma unparsable_snapshot_is_absent:
  "parse fileContent = None \<Longrightarrow>
   getSnapshotState (readSnapshot parse (Some fileContent)) C =
     Inr \<lparr>snapshot_exists = False, changed = False\<rparr>"
  by (simp add: readSnapshot_def getSnapshotState_def)

section \<open>Properties of the chat log\<close>

lemma split_lines_nonempty: "split_lines s \<noteq> []"
  by (induction s rule: split_lines.induct) (auto split: list.splits)

lemma split_append_nl:
  "c = [] \<or> last c \<noteq> 13 \<Longrightarrow> split_lines (c @ 10 # rest) = split_lines c @ split_lines rest"
proof (induction c rule: split_lines.induct)
  case 1
  show ?case by simp
next
  case (2 x cs)
  show ?case
  proof (cases "x = 10")
    case True
    with 2 show ?thesis by (cases cs) auto
  next
    case x10: False
    show ?thesis
    proof (cases "x = 13 \<and> cs \<noteq> [] \<and> hd cs = 10")
      case True
      then obtain cs' where cs: "cs = 10 # cs'" by (cases cs) auto
      have "cs' = [] \<or> last cs' \<noteq> 13" using 2(4) cs by (auto split: if_splits)
      with 2(2) x10 True cs have "split_lines (cs' @ 10 # rest) = split_lines cs' @ split_lines rest"
        by simp
      with True cs show ?thesis by simp
    next
      case False
      have csne: "x = 13 \<Longrightarrow> cs \<noteq> []" using 2(4) by auto
      have l: "cs = [] \<or> last cs \<noteq> 13" using 2(4) by (auto split: if_splits)
      from 2(3) x10 False l have ih: "split_lines (cs @ 10 # rest) = split_lines cs @ split_lines rest"
        by simp
      have hd: "\<not> (x = 13 \<and> cs @ 10 # rest \<noteq> [] \<and> hd (cs @ 10 # rest) = 10)"
        using False csne by (cases cs) auto
      obtain l ls where sp: "split_lines cs = l # ls"
        using split_lines_nonempty [of cs] by (cases "split_lines cs") auto
      from x10 hd False ih sp show ?thesis by auto
    qed
  qed
qed

lemma split_no_nl: "10 \<notin> set l \<Longrightarrow> split_lines l = [l]"
proof (induction l rule: split_lines.induct)
  case 1
  show ?case by simp
next
  case (2 x cs)
  have h: "\<not> (x = 13 \<and> cs \<noteq> [] \<and> hd cs = 10)"
    using 2(4) by (cases cs) auto
  from 2(3) 2(4) h have "split_lines cs = [cs]" by auto
  with 2(4) h show ?case by auto
qed

lemma join_nl_cons_cons: "join_nl ((x # l) # ls) = x # join_nl (l # ls)"
  by (cases ls) simp_all

lemma join_nl_empty_cons: "ls \<noteq> [] \<Longrightarrow> join_nl ([] # ls) = 10 # join_nl ls"
  by (cases ls) simp_all

lemma join_split: "no_crlf c \<Longrightarrow> join_nl (split_lines c) = c"
proof (induction c rule: split_lines.induct)
  case 1
  show ?case by simp
next
  case (2 x cs)
  have nc: "no_crlf cs" using 2(4) by (cases cs) (auto split: if_splits)
  show ?case
  proof (cases "x = 10")
    case True
    with 2(1) nc show ?thesis by (simp add: join_nl_empty_cons split_lines_nonempty)
  next
    case x10: False
    have no: "\<not> (x = 13 \<and> cs \<noteq> [] \<and> hd cs = 10)" using 2(4) by (cases cs) auto
    obtain l ls where sp: "split_lines cs = l # ls"
      using split_lines_nonempty [of cs] by (cases "split_lines cs") auto
    from 2(3) x10 no nc have "join_nl (split_lines cs) = cs" by simp
    with x10 no sp show ?thesis by (auto simp: join_nl_cons_cons)
  qed
qed

lemma join_nl_snoc_empty: "ls \<noteq> [] \<Longrightarrow> join_nl (ls @ [[]]) = join_nl ls @ [10]"
  by (induction ls rule: join_nl.induct) simp_all

lemma trim_append_ws: "is_ws w \<Longrightarrow> trim (s @ [w]) = trim s"
proof (cases "\<forall>x\<in>set s. is_ws x")
  case True
  assume "is_ws w"
  from True have a: "dropWhile is_ws s = []" by (simp add: dropWhile_eq_Nil_conv)
  from True \<open>is_ws w\<close> have "\<forall>x\<in>set (s @ [w]). is_ws x" by simp
  hence b: "dropWhile is_ws (s @ [w]) = []" by (simp only: dropWhile_eq_Nil_conv)
  show ?thesis unfolding trim_def a b by simp
next
  case False
  assume "is_ws w"
  with False have "dropWhile is_ws (s @ [w]) = dropWhile is_ws s @ [w]"
    by (auto simp: dropWhile_append)
  hence "trim (s @ [w]) = rev (dropWhile is_ws (w # rev (dropWhile is_ws s)))"
    by (simp only: trim_def rev_append rev.simps append.simps)
  with \<open>is_ws w\<close> show ?thesis by (simp add: trim_def)
qed

lemma trim_id: "c \<noteq> [] \<Longrightarrow> \<not> is_ws (hd c) \<Longrightarrow> \<not> is_ws (last c) \<Longrightarrow> trim c = c"
proof -
  assume a: "c \<noteq> []" "\<not> is_ws (hd c)" "\<not> is_ws (last c)"
  hence 1: "dropWhile is_ws c = c" by (cases c) auto
  from a have "rev c \<noteq> []" "\<not> is_ws (hd (rev c))" by (auto simp: hd_rev)
  hence 2: "dropWhile is_ws (rev c) = rev c" by (cases "rev c") auto
  show ?thesis by (simp add: trim_def 1 2)
qed

lemma append_all_Some: "append_all (Some d) es = Some (d @ concat (map log_entry_text es))"
  by (induction es arbitrary: d)
     (auto simp: appendChatLog_def appendTextFile_def log_entry_text_def)

lemma append_all_None:
  "es \<noteq> [] \<Longrightarrow>
   append_all None es = Some (js ''# Chat history'' @ 10 # 10 # concat (map log_entry_text es))"
  by (cases es) (auto simp: append_all_Some appendChatLog_def appendTextFile_def log_entry_text_def)

lemma header_match:
  "dot_plus now \<Longrightarrow> r \<noteq> System \<Longrightarrow> match_header (log_header (now, r, text)) = Some (now, r)"
  by (cases r) (simp_all add: match_header_def log_header_def startsWith_def endsWith_def js_def Let_def)

lemma header_no_nl: "dot_plus now \<Longrightarrow> 10 \<notin> set (log_header (now, r, text))"
  by (cases r) (auto simp: log_header_def dot_plus_def list_ex_iff is_line_terminator_def js_def)

lemma header_last: "last (log_header (now, r, text)) \<noteq> 13"
  by (cases r) (simp_all add: log_header_def js_def)

lemma header_nonempty: "log_header e \<noteq> []"
  by (cases e) (simp add: log_header_def js_def)

lemma entry_text_header:
  "log_entry_text (now, r, text) = log_header (now, r, text) @ 10 # (text @ 10 # ([] @ 10 # []))"
  by (simp add: log_entry_text_def log_header_def)

lemma entry_lines:
  assumes "entry_ok (now, r, text)"
  shows "split_lines (log_entry_text (now, r, text) @ rest) =
           log_header (now, r, text) # split_lines text @ [[]] @ split_lines rest"
proof -
  from assms have dp: "dot_plus now" and ne: "text \<noteq> []" and lw: "\<not> is_ws (last text)"
    by (simp_all add: entry_ok_def content_ok_def)
  have l13: "last text \<noteq> 13" using lw by (auto simp: is_ws_def)
  let ?h = "log_header (now, r, text)"
  have "log_entry_text (now, r, text) @ rest = ?h @ 10 # (text @ 10 # ([] @ 10 # rest))"
    by (simp add: entry_text_header)
  also have "split_lines \<dots> = split_lines ?h @ split_lines (text @ 10 # ([] @ 10 # rest))"
    by (rule split_append_nl) (simp add: header_last)
  also have "split_lines ?h = [?h]"
    by (rule split_no_nl) (rule header_no_nl [OF dp])
  also have "split_lines (text @ 10 # ([] @ 10 # rest)) = split_lines text @ split_lines ([] @ 10 # rest)"
    by (rule split_append_nl) (simp add: l13)
  also have "split_lines ([] @ 10 # rest) = [[]] @ split_lines rest"
    by simp
  finally show ?thesis by simp
qed

lemma md_loop_body:
  "\<not> list_ex (\<lambda>line. match_header line \<noteq> None \<or> startsWith line (js ''# Chat history'')) ls \<Longrightarrow>
   md_loop st (ls @ rest) = md_loop (st\<lparr>buffer := buffer st @ ls\<rparr>) rest"
proof (induction ls arbitrary: st)
  case Nil
  show ?case by simp
next
  case (Cons l ls)
  from Cons.prems have h1: "match_header l = None"
    by (cases "match_header l") auto
  from Cons.prems have h2: "\<not> startsWith l (js ''# Chat history'')"
    by simp
  note h = h1 h2
  from Cons.prems
  have r: "\<not> list_ex (\<lambda>line. match_header line \<noteq> None \<or> startsWith line (js ''# Chat history'')) ls"
    by simp
  have "md_loop st ((l # ls) @ rest) = md_loop (st\<lparr>buffer := buffer st @ [l]\<rparr>) (ls @ rest)"
    by (simp add: h)
  also have "\<dots> = md_loop (st\<lparr>buffer := buffer st @ [l]\<rparr>\<lparr>buffer := buffer (st\<lparr>buffer := buffer st @ [l]\<rparr>) @ ls\<rparr>) rest"
    by (rule Cons.IH [OF r])
  finally show ?case by simp
qed

lemma blank_not_special: "match_header [] = None" "\<not> startsWith [] (js ''# Chat history'')"
  by (simp_all add: match_header_def startsWith_def js_def)

lemma flush_extra_blank: "messages (flush (st\<lparr>buffer := buffer st @ [[]]\<rparr>)) = messages (flush st)"
proof (cases "buffer st = []")
  case True
  then show ?thesis by (simp add: flush_def trim_def split: option.splits)
next
  case False
  have "trim (join_nl (buffer st @ [[]])) = trim (join_nl (buffer st))"
    by (simp add: join_nl_snoc_empty [OF False] trim_append_ws is_ws_def)
  with False show ?thesis by (simp add: flush_def Let_def split: option.splits)
qed

lemma md_loop_entry:
  assumes "entry_ok (now, r, text)"
  shows "md_loop st (log_header (now, r, text) # split_lines text @ [[]] @ rest) =
     md_loop \<lparr>messages = messages (flush st), currentRole = Some r, currentTimestamp = Some now,
              buffer = split_lines text @ [[]]\<rparr> rest"
proof -
  from assms have dp: "dot_plus now" and rs: "r \<noteq> System"
    and body: "\<not> list_ex (\<lambda>line. match_header line \<noteq> None \<or> startsWith line (js ''# Chat history''))
            (split_lines text)"
    by (simp_all add: entry_ok_def content_ok_def)
  have b2: "\<not> list_ex (\<lambda>line. match_header line \<noteq> None \<or> startsWith line (js ''# Chat history''))
            (split_lines text @ [[]])"
    using body by (simp add: blank_not_special)
  let ?st1 = "(flush st)\<lparr>currentRole := Some r, currentTimestamp := Some now, buffer := []\<rparr>"
  have "md_loop st (log_header (now, r, text) # (split_lines text @ [[]]) @ rest) =
        md_loop ?st1 ((split_lines text @ [[]]) @ rest)"
    by (simp add: header_match [OF dp rs])
  also have "\<dots> = md_loop (?st1\<lparr>buffer := buffer ?st1 @ (split_lines text @ [[]])\<rparr>) rest"
    by (rule md_loop_body [OF b2])
  also have "?st1\<lparr>buffer := buffer ?st1 @ (split_lines text @ [[]])\<rparr> =
     \<lparr>messages = messages (flush st), currentRole = Some r, currentTimestamp = Some now,
              buffer = split_lines text @ [[]]\<rparr>"
    by simp
  finally show ?thesis by simp
qed

lemma flush_entry:
  assumes "entry_ok (now, r, text)"
  shows "messages (flush \<lparr>messages = ms, currentRole = Some r, currentTimestamp = Some now,
              buffer = split_lines text @ [[]]\<rparr>) = ms @ [entry_of (now, r, text)]"
proof -
  from assms have c: "text \<noteq> []" "\<not> is_ws (hd text)" "\<not> is_ws (last text)" "no_crlf text"
    by (simp_all add: entry_ok_def content_ok_def)
  have "trim (join_nl (split_lines text @ [[]])) = trim (text @ [10])"
    by (simp add: join_nl_snoc_empty split_lines_nonempty join_split c)
  also have "\<dots> = trim text" by (rule trim_append_ws) (simp add: is_ws_def)
  also have "\<dots> = text" by (rule trim_id) (rule c)+
  finally have t: "trim (join_nl (split_lines text @ [[]])) = text" .
  show ?thesis using c(1) by (simp add: flush_def t entry_of_def split_lines_nonempty)
qed

lemma split_entries:
  "list_all entry_ok es \<Longrightarrow> split_lines (concat (map log_entry_text es)) = entries_lines es"
proof (induction es)
  case Nil
  show ?case by simp
next
  case (Cons e es)
  obtain now r tx where e: "e = (now, r, tx)" by (cases e) auto
  from Cons.prems e have ok: "entry_ok (now, r, tx)" "list_all entry_ok es" by simp_all
  show ?case using entry_lines [OF ok(1)] Cons.IH [OF ok(2)] by (simp add: e)
qed

lemma parse_entries:
  "list_all entry_ok es \<Longrightarrow>
   messages (flush (md_loop st (entries_lines es))) = messages (flush st) @ map entry_of es"
proof (induction es arbitrary: st)
  case Nil
  have "md_loop st [[]] = st\<lparr>buffer := buffer st @ [[]]\<rparr>"
    by (simp add: blank_not_special)
  thus ?case by (simp add: flush_extra_blank)
next
  case (Cons e es)
  obtain now r tx where e: "e = (now, r, tx)" by (cases e) auto
  from Cons.prems e have ok: "entry_ok (now, r, tx)" "list_all entry_ok es" by simp_all
  let ?st2 = "\<lparr>messages = messages (flush st), currentRole = Some r, currentTimestamp = Some now,
              buffer = split_lines tx @ [[]]\<rparr>"
  have "md_loop st (entries_lines (e # es)) = md_loop ?st2 (entries_lines es)"
    using md_loop_entry [OF ok(1)] by (simp add: e)
  hence "messages (flush (md_loop st (entries_lines (e # es)))) =
      messages (flush ?st2) @ map entry_of es"
    using Cons.IH [OF ok(2)] by simp
  thus ?case by (simp add: flush_entry [OF ok(1)] e)
qed

lemma trim_hd: "\<not> is_ws c \<Longrightarrow> \<exists>t. trim (c # s) = c # t"
proof -
  assume c: "\<not> is_ws c"
  have "dropWhile is_ws (rev s @ [c]) \<noteq> [] \<and> last (dropWhile is_ws (rev s @ [c])) = c"
    using c by (auto simp: dropWhile_append dropWhile_eq_Nil_conv)
  then obtain ys where "dropWhile is_ws (rev s @ [c]) = ys @ [c]"
    by (metis append_butlast_last_id)
  thus ?thesis using c by (simp add: trim_def)
qed

text \<open>
  C6 (amended). For every sequence of appends with role \<open>user\<close> or \<open>assistant\<close>, each
  with a non-empty time without line terminators (as an ISO time is) and a content that
  is not empty, has no white space at either end, has no carriage return directly before
  a line feed and has no line that is itself a header line or starts with the title:
  appending them in order to a log file that does not exist at first (so that it is
  created with the title) and then loading the file yields the same sequence of roles,
  contents and times.
\<close>
theorem chat_log_round_trip:
  assumes "list_all entry_ok es"
  shows "loadChatEntries parse iso_of_string iso_of_ms (append_all None es) = map entry_of es"
proof (cases es)
  case Nil
  then show ?thesis by (simp add: loadChatEntries_def)
next
  case (Cons e es')
  let ?title = "js ''# Chat history''"
  let ?body = "concat (map log_entry_text es)"
  let ?doc = "?title @ 10 # 10 # ?body"
  have fl: "append_all None es = Some ?doc"
    using Cons by (simp add: append_all_None)
  obtain t where t: "trim ?doc = 35 # t"
    using trim_hd [of 35 "tl ?doc"] by (auto simp: js_def is_ws_def)
  have nj: "\<not> (startsWith (trim ?doc) (js ''{'') \<or> startsWith (trim ?doc) (js ''[''))"
    by (simp only: t) (simp add: startsWith_def js_def)
  have "split_lines ?doc = split_lines ?title @ split_lines ([] @ 10 # ?body)"
    using split_append_nl [of ?title "10 # ?body"] by (simp add: js_def)
  also have "split_lines ?title = [?title]"
    by (rule split_no_nl) (simp add: js_def)
  also have "split_lines ([] @ 10 # ?body) = [] # entries_lines es"
    by (simp add: split_entries [OF assms])
  finally have lines: "split_lines ?doc = ?title # [] # entries_lines es" by simp
  let ?init = "\<lparr>messages = [], currentRole = None, currentTimestamp = None, buffer = []\<rparr>"
  have th: "match_header ?title = None" "startsWith ?title ?title"
    by (simp_all add: match_header_def startsWith_def js_def)
  have "md_loop ?init (?title # [] # entries_lines es) =
        md_loop (?init\<lparr>buffer := [[]]\<rparr>) (entries_lines es)"
    by (simp add: th blank_not_special)
  hence "parse_markdown ?doc = messages (flush (md_loop (?init\<lparr>buffer := [[]]\<rparr>) (entries_lines es)))"
    by (simp add: parse_markdown_def lines)
  also have "\<dots> = messages (flush (?init\<lparr>buffer := [[]]\<rparr>)) @ map entry_of es"
    by (rule parse_entries [OF assms])
  also have "messages (flush (?init\<lparr>buffer := [[]]\<rparr>)) = []"
    by (simp add: flush_def)
  finally have pm: "parse_markdown ?doc = map entry_of es" by simp
  show ?thesis
    using nj by (simp add: fl loadChatEntries_def parseChatLog_def Let_def pm)
qed

lemmas chat_log_eval =
  loadChatEntries_def parseChatLog_def parse_markdown_def flush_def match_header_def
  appendChatLog_def appendTextFile_def dot_plus_def is_line_terminator_def
  startsWith_def endsWith_def trim_def is_ws_def js_def Let_def

text \<open>
  C6 (as stated, refuted). An assistant message that ends in a line feed is not read back
  as it was written: the parser trims the content of every turn.
\<close>
theorem trailing_newline_is_not_kept:
  "loadChatEntries Map.empty Map.empty Map.empty
     (append_all None [(js ''2026-01-01T00:00:00.000Z'', Assistant, js ''Hello'' @ [10])])
   = [\<lparr>role = Assistant, content = js ''Hello'',
       timestamp = Some (js ''2026-01-01T00:00:00.000Z'')\<rparr>]
   \<and> js ''Hello'' \<noteq> js ''Hello'' @ [10]"
  by (simp add: chat_log_eval)

theorem chat_log_round_trip_witness:
  "list_all entry_ok
     [(js ''2026-01-01T00:00:00.000Z'', User, js ''Hi''),
      (js ''2026-01-01T00:00:01.000Z'', Assistant, js ''Hello'' @ [10] @ js ''there'')]
   \<and> loadChatEntries Map.empty Map.empty Map.empty
       (append_all None
          [(js ''2026-01-01T00:00:00.000Z'', User, js ''Hi''),
           (js ''2026-01-01T00:00:01.000Z'', Assistant, js ''Hello'' @ [10] @ js ''there'')])
     = [\<lparr>role = User, content = js ''Hi'', timestamp = Some (js ''2026-01-01T00:00:00.000Z'')\<rparr>,
        \<lparr>role = Assistant, content = js ''Hello'' @ [10] @ js ''there'',
         timestamp = Some (js ''2026-01-01T00:00:01.000Z'')\<rparr>]"
proof -
  have ok: "list_all entry_ok
     [(js ''2026-01-01T00:00:00.000Z'', User, js ''Hi''),
      (js ''2026-01-01T00:00:01.000Z'', Assistant, js ''Hello'' @ [10] @ js ''there'')]"
    by (simp add: entry_ok_def content_ok_def chat_log_eval)
  from chat_log_round_trip [OF ok, of Map.empty Map.empty Map.empty] ok
  show ?thesis by (simp add: entry_of_def)
qed

end
